theory Spec2Isabelle
  imports Main "HOL-Library.Sublist" "HOL-Library.Multiset" "HOL-Library.Char_ord" "HOL-Library.List_Lexorder"
begin

section \<open>kcctl join: the node-join orchestrator of pkg/cli/join/join.go\<close>

text \<open>
  The Go code talks to remote machines and to the local file system. In this embedding
  every such call appends an event to a trace kept in an explicit \<open>world\<close>, and the
  answer of the outside (exit codes, transport errors, the identifier drawn by
  \<open>uuid.New\<close>, the order in which Go ranges over a map) is read from an \<open>env\<close> record
  of oracles that may look at the whole trace so far. Log output is not modelled.
\<close>

subsection \<open>Data model\<close>

text \<open>
  \<open>options.Agents\<close> is a Go map from region to the addresses of that region; it is kept as
  an association list, and the order in which \<open>range\<close> visits its entries is not the order
  of that list but an answer of the runtime (\<open>map_range\<close> below).
\<close>

type_synonym Agents = "(string \<times> string list) list"

record MQOptions =
  IPs :: "string list"
  Port :: int
  External :: bool
  User :: string
  Secret :: string
  TLS :: bool
  CA :: string
  ClientCert :: string
  ClientKey :: string

record OpLogOptions =
  Dir :: string
  Threshold :: int

text \<open>\<open>options.DeployConfig\<close>: the topology record that \<open>Write\<close> persists. The SSH
  handle is only ever passed on, never inspected, and is kept as an opaque string.\<close>

record DeployConfig =
  SSHConfig :: string
  ServerIPs :: "string list"
  AgentRegions :: Agents
  DefaultRegion :: string
  MQ :: MQOptions
  OpLog :: OpLogOptions
  Pkg :: string
  Debug :: bool
  StaticServerPort :: int

record JoinOptions =
  deployConfig :: DeployConfig
  agents :: "string list"
  agentRegion :: Agents
  servers :: "string list"

text \<open>The result of a remote command (\<open>sshutils.Result\<close>).\<close>

record Result =
  ExitCode :: int
  Stdout :: string
  Stderr :: string

text \<open>How a Go function can fail to return \<open>nil\<close>: it returns an error value, the
  process is terminated (\<open>logger.Fatalf\<close>, \<open>utils.CheckErr\<close>), or the runtime panics
  (\<open>ServerIPs[0]\<close> on an empty slice).\<close>

datatype failure = Returned string | Exited string | Panicked string

text \<open>Values stored in the \<open>map[string]interface{}\<close> handed to the template.\<close>

datatype tvalue = VString string | VBool bool | VInt int | VStrings "string list"

datatype event =
    SudoPreCheck "string list"
  | SSHCmdWithSudo string string
  | SendPackageV2 string "string list" string "string option" "string option"
  | DownloadSudo string string string
  | WriteOK DeployConfig
  | WriteFailed DeployConfig

record world =
  trace :: "event list"
  disk :: DeployConfig
  local_files :: "string list"

record env =
  sudo_PreCheck_res :: "event list \<Rightarrow> string list \<Rightarrow> bool"
  SSHCmdWithSudo_res :: "event list \<Rightarrow> string \<Rightarrow> string \<Rightarrow> string + Result"
  SendPackageV2_res ::
    "event list \<Rightarrow> string \<Rightarrow> string list \<Rightarrow> string \<Rightarrow> string option \<Rightarrow> string option
       \<Rightarrow> string option"
  DownloadSudo_res :: "event list \<Rightarrow> string \<Rightarrow> string \<Rightarrow> string \<Rightarrow> string option"
  IsFileExist_res :: "event list \<Rightarrow> string \<Rightarrow> string option"
  Write_res :: "event list \<Rightarrow> DeployConfig \<Rightarrow> string option"
  Complete_res :: "string option"
  BuildAgentRegion :: "string list \<Rightarrow> string \<Rightarrow> string + Agents"
  uuid_New :: "event list \<Rightarrow> string"
  map_range :: "event list \<Rightarrow> Agents \<Rightarrow> Agents"
  template_Parse :: "string \<Rightarrow> string option"
  template_Execute :: "string \<Rightarrow> (string \<rightharpoonup> tvalue) \<Rightarrow> string + string"
  filepath_Join :: "string list \<Rightarrow> string"
  filepath_Base :: "string \<Rightarrow> string"
  filepath_Dir :: "string \<Rightarrow> string"
  path_Base :: "string \<Rightarrow> string"
  WrapEcho :: "string \<Rightarrow> string \<Rightarrow> string"
  DefaultPkgPath :: string
  KcAgentService :: string
  KcAgentConfigTmpl :: string
  DefaultKcAgentConfigPath :: string
  DefaultCaPath :: string
  DefaultNatsPKIPath :: string

subsection \<open>Collaborators that are not part of join.go\<close>

definition emit :: "event \<Rightarrow> world \<Rightarrow> world" where
  "emit e w = w\<lparr>trace := trace w @ [e]\<rparr>"

text \<open>Modelled from the spec: \<open>options.Agents.Exists\<close> is not under src/. The address is
  a member when some region lists it.\<close>

definition Exists :: "Agents \<Rightarrow> string \<Rightarrow> bool" where
  "Exists a ip = (ip \<in> set (concat (map snd a)))"

text \<open>The addresses recorded under one region.\<close>

definition region_ips :: "Agents \<Rightarrow> string \<Rightarrow> string list" where
  "region_ips a region = (case map_of a region of None \<Rightarrow> [] | Some ips \<Rightarrow> ips)"

text \<open>Modelled from the spec: \<open>options.Agents.Add\<close> is not under src/. It inserts the
  address under its region, creating the region bucket if new; a region holds a set of
  addresses, so inserting a present address changes nothing.\<close>

fun Add :: "string \<Rightarrow> string \<Rightarrow> Agents \<Rightarrow> Agents" where
  "Add region ip [] = [(region, [ip])]"
| "Add region ip ((r, ips) # rest) =
     (if r = region then (r, if ip \<in> set ips then ips else ips @ [ip]) # rest
      else (r, ips) # Add region ip rest)"

text \<open>Modelled from the spec: \<open>options.Agents.ListIP\<close> is not under src/. It is the
  expanded, de-duplicated list of candidate addresses.\<close>

definition ListIP :: "Agents \<Rightarrow> string list" where
  "ListIP a = remdups (concat (map snd a))"

text \<open>Modelled from the spec: \<open>sshutils.Result.Error\<close> is not under src/. Any non-zero
  exit status is a failure.\<close>

definition Result_Error :: "Result \<Rightarrow> string option" where
  "Result_Error ret = (if ExitCode ret \<noteq> 0 then Some (Stderr ret) else None)"

text \<open>Modelled from the spec: \<open>sudo.PreCheck\<close> is not under src/. It is a read-only check
  over the given addresses; its verdict is an answer of the outside.\<close>

definition sudo_PreCheck :: "env \<Rightarrow> string list \<Rightarrow> world \<Rightarrow> bool \<times> world" where
  "sudo_PreCheck env ips w = (sudo_PreCheck_res env (trace w) ips, emit (SudoPreCheck ips) w)"

text \<open>Modelled from the spec: \<open>sshutils.SSHCmdWithSudo\<close> is not under src/. It runs a
  command on a node and yields a transport error or the exit code and output.\<close>

definition SSHCmdWithSudo_call :: "env \<Rightarrow> string \<Rightarrow> string \<Rightarrow> world \<Rightarrow> (string + Result) \<times> world" where
  "SSHCmdWithSudo_call env ip cmd w =
     (SSHCmdWithSudo_res env (trace w) ip cmd, emit (SSHCmdWithSudo ip cmd) w)"

text \<open>Modelled from the spec: \<open>utils.SendPackageV2\<close> is not under src/. It transfers a
  file to the given nodes and optionally runs a hook there.\<close>

definition SendPackageV2_call ::
  "env \<Rightarrow> string \<Rightarrow> string list \<Rightarrow> string \<Rightarrow> string option \<Rightarrow> string option \<Rightarrow> world
     \<Rightarrow> string option \<times> world" where
  "SendPackageV2_call env pkg nodes dst unzip hook w =
     (SendPackageV2_res env (trace w) pkg nodes dst unzip hook,
      emit (SendPackageV2 pkg nodes dst unzip hook) w)"

text \<open>Modelled from the spec: \<open>sshutils.IsFileExist\<close> is not under src/. It looks the file
  up in local storage, or fails.\<close>

definition IsFileExist :: "env \<Rightarrow> string \<Rightarrow> world \<Rightarrow> string + bool" where
  "IsFileExist env file w =
     (case IsFileExist_res env (trace w) file of
        Some err \<Rightarrow> Inl err
      | None \<Rightarrow> Inr (file \<in> set (local_files w)))"

text \<open>Modelled from the spec: \<open>SSH.DownloadSudo\<close> is not under src/. A successful download
  from the server leaves the file in local storage, where it stays for the rest of the run.\<close>

definition DownloadSudo_call :: "env \<Rightarrow> string \<Rightarrow> string \<Rightarrow> string \<Rightarrow> world \<Rightarrow> string option \<times> world" where
  "DownloadSudo_call env ip src dst w =
     (case DownloadSudo_res env (trace w) ip src dst of
        Some err \<Rightarrow> (Some err, emit (DownloadSudo ip src dst) w)
      | None \<Rightarrow> (None, emit (DownloadSudo ip src dst) (w\<lparr>local_files := dst # local_files w\<rparr>)))"

text \<open>Modelled from the spec: \<open>DeployConfig.Write\<close> is not under src/. It serialises the
  entire in-memory topology and writes it to durable storage; a failed write leaves the
  stored topology as it was.\<close>

definition Write :: "env \<Rightarrow> DeployConfig \<Rightarrow> world \<Rightarrow> string option \<times> world" where
  "Write env dc w =
     (case Write_res env (trace w) dc of
        Some err \<Rightarrow> (Some err, emit (WriteFailed dc) w)
      | None \<Rightarrow> (None, emit (WriteOK dc) (w\<lparr>disk := dc\<rparr>)))"

text \<open>\<open>fmt.Sprintf("%d", n)\<close>.\<close>

fun show_nat :: "nat \<Rightarrow> string" where
  "show_nat n =
     (if n < 10 then [char_of (48 + n)] else show_nat (n div 10) @ [char_of (48 + n mod 10)])"

declare show_nat.simps [simp del]

definition show_int :: "int \<Rightarrow> string" where
  "show_int i = (if i < 0 then CHR ''-'' # show_nat (nat (- i)) else show_nat (nat i))"

subsection \<open>Validation and preflight\<close>

definition ValidateArgs :: "JoinOptions \<Rightarrow> string option" where
  "ValidateArgs c =
     (if length (agents c) = 0 then Some ''must specified at least one agent node''
      else if length (ServerIPs (deployConfig c)) = 0
        then Some ''join an agent node requires specifying at least one server node''
      else None)"

definition probe_cmd :: string where
  "probe_cmd = ''systemctl --all --type service | grep -Fq kc-agent''"

definition preCheckKcAgent :: "env \<Rightarrow> JoinOptions \<Rightarrow> string \<Rightarrow> world \<Rightarrow> bool \<times> world" where
  "preCheckKcAgent env c ip w =
     (if Exists (AgentRegions (deployConfig c)) ip then (False, w)
      else
        (case SSHCmdWithSudo_call env ip probe_cmd w of
           (Inl err, w1) \<Rightarrow> (False, w1)
         | (Inr ret, w1) \<Rightarrow>
             if ExitCode ret = 0 \<and> Stdout ret \<noteq> [] then (False, w1) else (True, w1)))"

text \<open>The loop of \<open>preCheck\<close> over the candidate addresses.\<close>

fun preCheck_agents :: "env \<Rightarrow> JoinOptions \<Rightarrow> string list \<Rightarrow> world \<Rightarrow> bool \<times> world" where
  "preCheck_agents env c [] w = (True, w)"
| "preCheck_agents env c (agent # rest) w =
     (case preCheckKcAgent env c agent w of
        (False, w1) \<Rightarrow> (False, w1)
      | (True, w1) \<Rightarrow> preCheck_agents env c rest w1)"

definition preCheck :: "env \<Rightarrow> JoinOptions \<Rightarrow> world \<Rightarrow> bool \<times> world" where
  "preCheck env c w =
     (case sudo_PreCheck env (ListIP (agentRegion c) @ servers c) w of
        (False, w1) \<Rightarrow> (False, w1)
      | (True, w1) \<Rightarrow> preCheck_agents env c (ListIP (agentRegion c)) w1)"

text \<open>Modelled from the spec: \<open>DeployConfig.Complete\<close> and \<open>BuildAgentRegion\<close> are not
  under src/. The topology is loaded once at the start of a join invocation; the address
  expander turns the raw tokens into the region mapping or fails.\<close>

definition Complete :: "env \<Rightarrow> JoinOptions \<Rightarrow> world \<Rightarrow> failure + JoinOptions" where
  "Complete env c w =
     (case Complete_res env of
        Some err \<Rightarrow> Inl (Returned err)
      | None \<Rightarrow>
         (case BuildAgentRegion env (agents c) (DefaultRegion (disk w)) of
            Inl err \<Rightarrow> Inl (Exited err)
          | Inr a \<Rightarrow>
              Inr (c\<lparr>deployConfig := disk w, agentRegion := a,
                     servers := sort (remdups (servers c))\<rparr>)))"

subsection \<open>The server path\<close>

definition checkServerNode :: "JoinOptions \<Rightarrow> string \<Rightarrow> world \<Rightarrow> failure option \<times> world" where
  "checkServerNode c node w = (None, w)"

definition serverNodeFiles :: "JoinOptions \<Rightarrow> world \<Rightarrow> failure option \<times> world" where
  "serverNodeFiles c w = (None, w)"

definition enableServerService :: "JoinOptions \<Rightarrow> world \<Rightarrow> failure option \<times> world" where
  "enableServerService c w = (None, w)"

fun runJoinServerNode_loop :: "JoinOptions \<Rightarrow> string list \<Rightarrow> world \<Rightarrow> failure option \<times> world" where
  "runJoinServerNode_loop c [] w = (None, w)"
| "runJoinServerNode_loop c (node # rest) w =
     (case checkServerNode c node w of
        (Some err, w1) \<Rightarrow> (Some err, w1)
      | (None, w1) \<Rightarrow> runJoinServerNode_loop c rest w1)"

definition runJoinServerNode :: "JoinOptions \<Rightarrow> world \<Rightarrow> failure option \<times> world" where
  "runJoinServerNode c w = runJoinServerNode_loop c (ServerIPs (deployConfig c)) w"

subsection \<open>The agent path\<close>

text \<open>The download loop of \<open>sendCerts\<close>.\<close>

fun sendCerts_download :: "env \<Rightarrow> JoinOptions \<Rightarrow> string list \<Rightarrow> world \<Rightarrow> failure option \<times> world" where
  "sendCerts_download env c [] w = (None, w)"
| "sendCerts_download env c (file # files) w =
     (case IsFileExist env file w of
        Inl err \<Rightarrow> (Some (Returned (''check file exist: '' @ err)), w)
      | Inr exist \<Rightarrow>
          if \<not> exist then
            (case ServerIPs (deployConfig c) of
               [] \<Rightarrow> (Some (Panicked ''index out of range''), w)
             | server # _ \<Rightarrow>
                (case DownloadSudo_call env server file file w of
                   (Some err, w1) \<Rightarrow> (Some (Returned (''download cert from server: '' @ err)), w1)
                 | (None, w1) \<Rightarrow> sendCerts_download env c files w1))
          else sendCerts_download env c files w)"

definition sendCerts :: "env \<Rightarrow> JoinOptions \<Rightarrow> world \<Rightarrow> failure option \<times> world" where
  "sendCerts env c w =
     (let mq = MQ (deployConfig c) in
      case sendCerts_download env c [CA mq, ClientCert mq, ClientKey mq] w of
        (Some f, w1) \<Rightarrow> (Some f, w1)
      | (None, w1) \<Rightarrow>
          if TLS mq then
            (let destCa = (if External mq then filepath_Dir env (CA mq)
                           else filepath_Join env [DefaultKcAgentConfigPath env, DefaultCaPath env]);
                 destCert = (if External mq then filepath_Dir env (ClientCert mq)
                             else filepath_Join env [DefaultKcAgentConfigPath env, DefaultNatsPKIPath env]);
                 destKey = (if External mq then filepath_Dir env (ClientKey mq)
                            else filepath_Join env [DefaultKcAgentConfigPath env, DefaultNatsPKIPath env])
             in
             case SendPackageV2_call env (CA mq) (ListIP (agentRegion c)) destCa None None w1 of
               (Some err, w2) \<Rightarrow> (Some (Returned err), w2)
             | (None, w2) \<Rightarrow>
                (case SendPackageV2_call env (ClientCert mq) (ListIP (agentRegion c)) destCert None None w2 of
                   (Some err, w3) \<Rightarrow> (Some (Returned err), w3)
                 | (None, w3) \<Rightarrow>
                    (case SendPackageV2_call env (ClientKey mq) (ListIP (agentRegion c)) destKey None None w3 of
                       (Some err, w4) \<Rightarrow> (Some (Returned err), w4)
                     | (None, w4) \<Rightarrow> (None, w4))))
          else (None, w1))"

text \<open>The field set handed to the template, in the order the Go code fills it.\<close>

definition template_data :: "env \<Rightarrow> DeployConfig \<Rightarrow> string \<Rightarrow> string \<Rightarrow> string \<Rightarrow> (string \<rightharpoonup> tvalue)" where
  "template_data env dc region agentID server =
     (let mq = MQ dc;
          d1 = [''Region'' \<mapsto> VString region,
                ''AgentID'' \<mapsto> VString agentID,
                ''StaticServerAddress'' \<mapsto>
                   VString (''http://'' @ server @ '':'' @ show_int (StaticServerPort dc)),
                ''LogLevel'' \<mapsto> VString (if Debug dc then ''debug'' else ''info''),
                ''MQServerEndpoints'' \<mapsto>
                   VStrings (map (\<lambda>v. v @ '':'' @ show_int (Port mq)) (IPs mq)),
                ''MQExternal'' \<mapsto> VBool (External mq),
                ''MQUser'' \<mapsto> VString (User mq),
                ''MQAuthToken'' \<mapsto> VString (Secret mq),
                ''MQTLS'' \<mapsto> VBool (TLS mq)];
          d2 = (if TLS mq then
                  (if External mq then
                     d1(''MQCaPath'' \<mapsto> VString (CA mq),
                        ''MQClientCertPath'' \<mapsto> VString (ClientCert mq),
                        ''MQClientKeyPath'' \<mapsto> VString (ClientKey mq))
                   else
                     d1(''MQCaPath'' \<mapsto> VString (filepath_Join env
                           [DefaultKcAgentConfigPath env, DefaultCaPath env, filepath_Base env (CA mq)]),
                        ''MQClientCertPath'' \<mapsto> VString (filepath_Join env
                           [DefaultKcAgentConfigPath env, DefaultNatsPKIPath env, filepath_Base env (ClientCert mq)]),
                        ''MQClientKeyPath'' \<mapsto> VString (filepath_Join env
                           [DefaultKcAgentConfigPath env, DefaultNatsPKIPath env, filepath_Base env (ClientKey mq)])))
                else d1)
      in d2(''OpLogDir'' \<mapsto> VString (Dir (OpLog dc)),
            ''OpLogThreshold'' \<mapsto> VInt (Threshold (OpLog dc))))"

definition getKcAgentConfigTemplateContent ::
  "env \<Rightarrow> JoinOptions \<Rightarrow> string \<Rightarrow> world \<Rightarrow> failure + string" where
  "getKcAgentConfigTemplateContent env c region w =
     (case template_Parse env (KcAgentConfigTmpl env) of
        Some err \<Rightarrow> Inl (Exited (''template parse failed: '' @ err))
      | None \<Rightarrow>
         (case ServerIPs (deployConfig c) of
            [] \<Rightarrow> Inl (Panicked ''index out of range'')
          | server # _ \<Rightarrow>
             (case template_Execute env (KcAgentConfigTmpl env)
                     (template_data env (deployConfig c) region (uuid_New env (trace w)) server) of
                Inl err \<Rightarrow> Inl (Exited (''template execute failed: '' @ err))
              | Inr text \<Rightarrow> Inr text)))"

text \<open>The loop of \<open>agentNodeFiles\<close> over \<open>cmdList\<close>.\<close>

fun agentNodeFiles_cmds :: "env \<Rightarrow> string \<Rightarrow> string list \<Rightarrow> world \<Rightarrow> failure option \<times> world" where
  "agentNodeFiles_cmds env node [] w = (None, w)"
| "agentNodeFiles_cmds env node (cmd # cmds) w =
     (case SSHCmdWithSudo_call env node cmd w of
        (Inl err, w1) \<Rightarrow> (Some (Returned err), w1)
      | (Inr ret, w1) \<Rightarrow>
         (case Result_Error ret of
            Some err \<Rightarrow> (Some (Returned err), w1)
          | None \<Rightarrow> agentNodeFiles_cmds env node cmds w1))"

definition install_hook :: "env \<Rightarrow> JoinOptions \<Rightarrow> string" where
  "install_hook env c =
     ''rm -rf '' @ filepath_Join env [DefaultPkgPath env, ''kc'']
       @ '' && tar -xvf '' @ filepath_Join env [DefaultPkgPath env, path_Base env (Pkg (deployConfig c))]
       @ '' -C '' @ DefaultPkgPath env
       @ '' && cp -rf '' @ filepath_Join env [DefaultPkgPath env, ''kc/bin/kubeclipper-agent'']
       @ '' /usr/local/bin/''"

definition agentNodeFiles :: "env \<Rightarrow> JoinOptions \<Rightarrow> string \<Rightarrow> string \<Rightarrow> world \<Rightarrow> failure option \<times> world" where
  "agentNodeFiles env c region node w =
     (case SendPackageV2_call env (Pkg (deployConfig c)) [node] (DefaultPkgPath env) None
             (Some (install_hook env c)) w of
        (Some err, w1) \<Rightarrow> (Some (Returned (''SendPackageV2: '' @ err)), w1)
      | (None, w1) \<Rightarrow>
         (case sendCerts env c w1 of
            (Some f, w2) \<Rightarrow> (Some f, w2)
          | (None, w2) \<Rightarrow>
             (case getKcAgentConfigTemplateContent env c region w2 of
                Inl f \<Rightarrow> (Some f, w2)
              | Inr agentConfig \<Rightarrow>
                  agentNodeFiles_cmds env node
                    [WrapEcho env (KcAgentService env) ''/usr/lib/systemd/system/kc-agent.service'',
                     ''mkdir -pv /etc/kubeclipper-agent '',
                     WrapEcho env agentConfig ''/etc/kubeclipper-agent/kubeclipper-agent.yaml'']
                    w2)))"

definition enable_cmd :: string where
  "enable_cmd = ''systemctl daemon-reload && systemctl enable kc-agent --now''"

definition enableAgent ::
  "env \<Rightarrow> JoinOptions \<Rightarrow> string \<Rightarrow> string \<Rightarrow> world \<Rightarrow> failure option \<times> JoinOptions \<times> world" where
  "enableAgent env c region node w =
     (case SSHCmdWithSudo_call env node enable_cmd w of
        (Inl err, w1) \<Rightarrow> (Some (Returned (''enable kc agent: '' @ err)), c, w1)
      | (Inr ret, w1) \<Rightarrow>
         (case Result_Error ret of
            Some err \<Rightarrow> (Some (Returned (''enable kc agent: '' @ err)), c, w1)
          | None \<Rightarrow>
             (let dc = (deployConfig c)\<lparr>AgentRegions := Add region node (AgentRegions (deployConfig c))\<rparr>;
                  c1 = c\<lparr>deployConfig := dc\<rparr>
              in case Write env dc w1 of
                   (Some err, w2) \<Rightarrow> (Some (Returned err), c1, w2)
                 | (None, w2) \<Rightarrow> (None, c1, w2))))"

text \<open>The inner loop of \<open>runJoinAgentNode\<close>: the addresses of one region.\<close>

fun runJoinAgentNode_region ::
  "env \<Rightarrow> JoinOptions \<Rightarrow> string \<Rightarrow> string list \<Rightarrow> world \<Rightarrow> failure option \<times> JoinOptions \<times> world" where
  "runJoinAgentNode_region env c region [] w = (None, c, w)"
| "runJoinAgentNode_region env c region (agent # rest) w =
     (case agentNodeFiles env c region agent w of
        (Some f, w1) \<Rightarrow> (Some f, c, w1)
      | (None, w1) \<Rightarrow>
         (case enableAgent env c region agent w1 of
            (Some f, c1, w2) \<Rightarrow> (Some f, c1, w2)
          | (None, c1, w2) \<Rightarrow> runJoinAgentNode_region env c1 region rest w2))"

text \<open>The outer loop, over the entries in the order \<open>range\<close> yields them.\<close>

fun runJoinAgentNode_regions ::
  "env \<Rightarrow> JoinOptions \<Rightarrow> Agents \<Rightarrow> world \<Rightarrow> failure option \<times> JoinOptions \<times> world" where
  "runJoinAgentNode_regions env c [] w = (None, c, w)"
| "runJoinAgentNode_regions env c ((region, ags) # rest) w =
     (case runJoinAgentNode_region env c region ags w of
        (Some f, c1, w1) \<Rightarrow> (Some f, c1, w1)
      | (None, c1, w1) \<Rightarrow> runJoinAgentNode_regions env c1 rest w1)"

definition runJoinAgentNode :: "env \<Rightarrow> JoinOptions \<Rightarrow> world \<Rightarrow> failure option \<times> JoinOptions \<times> world" where
  "runJoinAgentNode env c w =
     runJoinAgentNode_regions env c (map_range env (trace w) (agentRegion c)) w"

text \<open>\<open>fmt.Errorf(prefix + "%s", err.Error())\<close> on a returned error; a terminated process
  runs no wrapping code.\<close>

fun wrap_failure :: "string \<Rightarrow> failure \<Rightarrow> failure" where
  "wrap_failure p (Returned err) = Returned (p @ err)"
| "wrap_failure p (Exited err) = Exited err"
| "wrap_failure p (Panicked err) = Panicked err"

definition RunJoinNode :: "env \<Rightarrow> JoinOptions \<Rightarrow> world \<Rightarrow> failure option \<times> JoinOptions \<times> world" where
  "RunJoinNode env c w =
     (case runJoinServerNode c w of
        (Some f, w1) \<Rightarrow> (Some (wrap_failure ''join server node failed: '' f), c, w1)
      | (None, w1) \<Rightarrow>
         (case runJoinAgentNode env c w1 of
            (Some f, c1, w2) \<Rightarrow> (Some (wrap_failure ''join agent node failed: '' f), c1, w2)
          | (None, c1, w2) \<Rightarrow> (None, c1, w2)))"

definition RunJoinFunc :: "env \<Rightarrow> JoinOptions \<Rightarrow> world \<Rightarrow> failure option \<times> JoinOptions \<times> world" where
  "RunJoinFunc env c w =
     (case RunJoinNode env c w of
        (Some f, c1, w1) \<Rightarrow> (Some f, c1, w1)
      | (None, c1, w1) \<Rightarrow> (None, c1, w1))"

text \<open>\<open>utils.CheckErr\<close> terminates the process on an error.\<close>

fun CheckErr :: "failure \<Rightarrow> failure" where
  "CheckErr (Returned err) = Exited err"
| "CheckErr (Exited err) = Exited err"
| "CheckErr (Panicked err) = Panicked err"

text \<open>How the \<open>Run\<close> closure of \<open>NewCmdJoin\<close> ends.\<close>

datatype outcome = Joined | PreCheckFailed | Failed failure

definition Run :: "env \<Rightarrow> JoinOptions \<Rightarrow> world \<Rightarrow> outcome \<times> world" where
  "Run env c w =
     (case Complete env c w of
        Inl f \<Rightarrow> (Failed (CheckErr f), w)
      | Inr c1 \<Rightarrow>
         (case ValidateArgs c1 of
            Some err \<Rightarrow> (Failed (Exited err), w)
          | None \<Rightarrow>
             (case preCheck env c1 w of
                (False, w1) \<Rightarrow> (PreCheckFailed, w1)
              | (True, w1) \<Rightarrow>
                 (case RunJoinFunc env c1 w1 of
                    (Some f, c2, w2) \<Rightarrow> (Failed (CheckErr f), w2)
                  | (None, c2, w2) \<Rightarrow> (Joined, w2)))))"

subsection \<open>Summaries of a run\<close>

text \<open>
  A summary \<open>R w r w'\<close> relates the world before a piece of the run, its result and the
  world after it. \<open>calls_ok\<close> says that a summary holds of doing nothing, is closed under
  running one piece after a successful one, and holds of every remote call the agent path
  makes; a download is only ever issued for a file that is not in local storage.
\<close>

definition calls_ok :: "env \<Rightarrow> (world \<Rightarrow> failure option \<Rightarrow> world \<Rightarrow> bool) \<Rightarrow> bool" where
  "calls_ok env R \<longleftrightarrow>
     (\<forall>w r. R w r w) \<and>
     (\<forall>w w1 r w2. R w None w1 \<longrightarrow> R w1 r w2 \<longrightarrow> R w r w2) \<and>
     (\<forall>w r ips. R w r (emit (SudoPreCheck ips) w)) \<and>
     (\<forall>w r ip cmd. R w r (emit (SSHCmdWithSudo ip cmd) w)) \<and>
     (\<forall>w r pkg nodes dst. R w r (emit (SendPackageV2 pkg nodes dst None None) w)) \<and>
     (\<forall>w r ip f. f \<notin> set (local_files w) \<longrightarrow> DownloadSudo_res env (trace w) ip f f = None
         \<longrightarrow> R w r (snd (DownloadSudo_call env ip f f w))) \<and>
     (\<forall>w g ip f. f \<notin> set (local_files w) \<longrightarrow> DownloadSudo_res env (trace w) ip f f \<noteq> None
         \<longrightarrow> R w (Some g) (snd (DownloadSudo_call env ip f f w)))"

definition install_ok :: "(world \<Rightarrow> failure option \<Rightarrow> world \<Rightarrow> bool) \<Rightarrow> bool" where
  "install_ok R \<longleftrightarrow>
     (\<forall>w r pkg node dst hook. R w r (emit (SendPackageV2 pkg [node] dst None (Some hook)) w))"

definition write_ok :: "env \<Rightarrow> (world \<Rightarrow> failure option \<Rightarrow> world \<Rightarrow> bool) \<Rightarrow> bool" where
  "write_ok env R \<longleftrightarrow> (\<forall>w r dc. R w r (snd (Write env dc w)))"

text \<open>The events a piece of the run has added to the trace.\<close>

definition new_events :: "world \<Rightarrow> world \<Rightarrow> event list" where
  "new_events w w' = drop (length (trace w)) (trace w')"

fun is_download :: "string \<Rightarrow> event \<Rightarrow> bool" where
  "is_download f (DownloadSudo ip src dst) = (dst = f)"
| "is_download f (SudoPreCheck ips) = False"
| "is_download f (SSHCmdWithSudo ip cmd) = False"
| "is_download f (SendPackageV2 pkg nodes dst unzip hook) = False"
| "is_download f (WriteOK dc) = False"
| "is_download f (WriteFailed dc) = False"

text \<open>How often a file was fetched to local storage.\<close>

definition downloads :: "string \<Rightarrow> event list \<Rightarrow> nat" where
  "downloads f es = length (filter (is_download f) es)"

definition fetch_once :: "world \<Rightarrow> failure option \<Rightarrow> world \<Rightarrow> bool" where
  "fetch_once w r w' \<longleftrightarrow>
     (\<exists>es. trace w' = trace w @ es \<and> set (local_files w) \<subseteq> set (local_files w') \<and>
        (\<forall>f. downloads f es \<le> 1 \<and>
             (0 < downloads f es \<longrightarrow>
                f \<notin> set (local_files w) \<and> (r = None \<longrightarrow> f \<in> set (local_files w')))))"

subsection \<open>The order of provisioning and the stored topology\<close>

text \<open>The (region, address) pairs in the order the nested loops of \<open>runJoinAgentNode\<close>
  visit them, given the entries in the order \<open>range\<close> yields them.\<close>

definition nodes_of :: "Agents \<Rightarrow> (string \<times> string) list" where
  "nodes_of its = concat (map (\<lambda>(region, ags). map (Pair region) ags) its)"

text \<open>The body of the loops of \<open>runJoinAgentNode\<close>, run over a sequence of
  (region, address) pairs.\<close>

fun join_nodes ::
  "env \<Rightarrow> JoinOptions \<Rightarrow> (string \<times> string) list \<Rightarrow> world \<Rightarrow> failure option \<times> JoinOptions \<times> world" where
  "join_nodes env c [] w = (None, c, w)"
| "join_nodes env c ((region, agent) # rest) w =
     (case agentNodeFiles env c region agent w of
        (Some f, w1) \<Rightarrow> (Some f, c, w1)
      | (None, w1) \<Rightarrow>
         (case enableAgent env c region agent w1 of
            (Some f, c1, w2) \<Rightarrow> (Some f, c1, w2)
          | (None, c1, w2) \<Rightarrow> join_nodes env c1 rest w2))"

text \<open>The nodes to which an event installs the agent binary: the package transfer with
  the unpack-and-copy hook is the first step of provisioning a node.\<close>

fun installed_nodes :: "event \<Rightarrow> string list" where
  "installed_nodes (SendPackageV2 pkg nodes dst unzip (Some hook)) = nodes"
| "installed_nodes (SendPackageV2 pkg nodes dst unzip None) = []"
| "installed_nodes (SudoPreCheck ips) = []"
| "installed_nodes (SSHCmdWithSudo ip cmd) = []"
| "installed_nodes (DownloadSudo ip src dst) = []"
| "installed_nodes (WriteOK dc) = []"
| "installed_nodes (WriteFailed dc) = []"

definition install_targets :: "event list \<Rightarrow> string list" where
  "install_targets es = concat (map installed_nodes es)"


text \<open>The topologies an event stores.\<close>

fun written :: "event \<Rightarrow> DeployConfig list" where
  "written (WriteOK dc) = [dc]"
| "written (WriteFailed dc) = []"
| "written (SudoPreCheck ips) = []"
| "written (SSHCmdWithSudo ip cmd) = []"
| "written (SendPackageV2 pkg nodes dst unzip hook) = []"
| "written (DownloadSudo ip src dst) = []"

definition writes_ok :: "event list \<Rightarrow> DeployConfig list" where
  "writes_ok es = concat (map written es)"

definition no_write :: "world \<Rightarrow> failure option \<Rightarrow> world \<Rightarrow> bool" where
  "no_write w r w' \<longleftrightarrow> disk w' = disk w \<and> (\<exists>es. trace w' = trace w @ es \<and> writes_ok es = [])"

text \<open>One stored topology against an earlier one: every field but \<open>AgentRegions\<close> is the
  same, and no address has left its region or the membership.\<close>

definition topology_grows :: "DeployConfig \<Rightarrow> DeployConfig \<Rightarrow> bool" where
  "topology_grows d d' \<longleftrightarrow>
     d' = d\<lparr>AgentRegions := AgentRegions d'\<rparr> \<and>
     (\<forall>region. set (region_ips (AgentRegions d) region) \<subseteq> set (region_ips (AgentRegions d') region)) \<and>
     (\<forall>ip. Exists (AgentRegions d) ip \<longrightarrow> Exists (AgentRegions d') ip)"

subsection \<open>A concrete installation, used to run the definitions\<close>

text \<open>One control-plane node, one agent already joined, two candidates. Every remote call
  succeeds except the activation of the service on 10.0.0.2.\<close>

definition example_env :: env where
  "example_env =
     \<lparr>sudo_PreCheck_res = (\<lambda>tr ips. True),
      SSHCmdWithSudo_res = (\<lambda>tr ip cmd.
         if cmd = probe_cmd then Inr \<lparr>ExitCode = 1, Stdout = [], Stderr = []\<rparr>
         else if ip = ''10.0.0.2'' \<and> cmd = enable_cmd then Inl ''ssh: connection refused''
         else Inr \<lparr>ExitCode = 0, Stdout = [], Stderr = []\<rparr>),
      SendPackageV2_res = (\<lambda>tr pkg nodes dst unzip hook. None),
      DownloadSudo_res = (\<lambda>tr ip src dst. None),
      IsFileExist_res = (\<lambda>tr file. None),
      Write_res = (\<lambda>tr dc. None),
      Complete_res = None,
      BuildAgentRegion = (\<lambda>tokens region. Inr [(region, tokens)]),
      uuid_New = (\<lambda>tr. ''0b2c''),
      map_range = (\<lambda>tr a. a),
      template_Parse = (\<lambda>t. None),
      template_Execute = (\<lambda>t d. Inr t),
      filepath_Join = (\<lambda>xs. concat (map (\<lambda>x. CHR ''/'' # x) xs)),
      filepath_Base = (\<lambda>p. p),
      filepath_Dir = (\<lambda>p. p),
      path_Base = (\<lambda>p. p),
      WrapEcho = (\<lambda>content file. ''echo '' @ content @ '' > '' @ file),
      DefaultPkgPath = ''/tmp'',
      KcAgentService = ''[Unit]'',
      KcAgentConfigTmpl = ''agentID: {{.AgentID}}'',
      DefaultKcAgentConfigPath = ''/etc/kubeclipper-agent'',
      DefaultCaPath = ''pki'',
      DefaultNatsPKIPath = ''pki/nats''\<rparr>"

definition example_topology :: DeployConfig where
  "example_topology =
     \<lparr>SSHConfig = ''root'', ServerIPs = [''10.0.0.10''], AgentRegions = [(''default'', [''10.0.0.9''])],
      DefaultRegion = ''default'',
      MQ = \<lparr>IPs = [''10.0.0.10''], Port = 9889, External = False, User = ''admin'', Secret = ''s'',
            TLS = False, CA = ''ca.crt'', ClientCert = ''client.crt'', ClientKey = ''client.key''\<rparr>,
      OpLog = \<lparr>Dir = ''/var/log'', Threshold = 1048576\<rparr>,
      Pkg = ''kc.tar.gz'', Debug = False, StaticServerPort = 8081\<rparr>"

definition example_world :: world where
  "example_world = \<lparr>trace = [], disk = example_topology, local_files = []\<rparr>"

definition example_options :: JoinOptions where
  "example_options =
     \<lparr>deployConfig = example_topology, agents = [''10.0.0.1'', ''10.0.0.2''],
      agentRegion = [(''default'', [''10.0.0.1'', ''10.0.0.2''])], servers = []\<rparr>"

text \<open>What the remote shell answers to the probe when a kc-agent unit is listed:
  \<open>grep -q\<close> exits 0 and writes nothing.\<close>

definition quiet_grep_env :: env where
  "quiet_grep_env = example_env\<lparr>SSHCmdWithSudo_res :=
      (\<lambda>tr ip cmd. Inr \<lparr>ExitCode = 0, Stdout = [], Stderr = []\<rparr>)\<rparr>"

text \<open>The stored topology already lists 10.0.0.2, the second candidate.\<close>

definition member_world :: world where
  "member_world = example_world\<lparr>disk := example_topology\<lparr>AgentRegions := [(''default'', [''10.0.0.2''])]\<rparr>\<rparr>"



text \<open>The world after a preflight that passed for both candidates.\<close>

definition checked_world :: world where
  "checked_world = example_world\<lparr>trace :=
      [SudoPreCheck [''10.0.0.1'', ''10.0.0.2''],
       SSHCmdWithSudo ''10.0.0.1'' probe_cmd, SSHCmdWithSudo ''10.0.0.2'' probe_cmd]\<rparr>"

section \<open>Properties\<close>

subsection \<open>The server path does nothing\<close>

lemma runJoinServerNode_loop_nil: "runJoinServerNode_loop c nodes w = (None, w)"
  by (induction nodes arbitrary: w) (simp_all add: checkServerNode_def)

text \<open>
  C10. The server-node join path is a no-op: \<open>checkServerNode\<close>, \<open>serverNodeFiles\<close>,
  \<open>enableServerService\<close> and \<open>runJoinServerNode\<close> return nil and leave the world (trace of
  remote calls, stored topology, local files) as it was, so \<open>RunJoinNode\<close> is its agent branch
  alone and never yields a "join server node failed" error.
\<close>

theorem server_join_noop:
  "checkServerNode c node w = (None, w) \<and> serverNodeFiles c w = (None, w)
   \<and> enableServerService c w = (None, w) \<and> runJoinServerNode c w = (None, w)
   \<and> RunJoinNode env c w =
       (case runJoinAgentNode env c w of
          (Some f, c1, w2) \<Rightarrow> (Some (wrap_failure ''join agent node failed: '' f), c1, w2)
        | (None, c1, w2) \<Rightarrow> (None, c1, w2))
   \<and> (\<forall>f. fst (RunJoinNode env c w) \<noteq> Some (Returned (''join server node failed: '' @ f)))"
proof -
  have s: "runJoinServerNode c w = (None, w)"
    by (simp add: runJoinServerNode_def runJoinServerNode_loop_nil)
  have r: "RunJoinNode env c w =
       (case runJoinAgentNode env c w of
          (Some f, c1, w2) \<Rightarrow> (Some (wrap_failure ''join agent node failed: '' f), c1, w2)
        | (None, c1, w2) \<Rightarrow> (None, c1, w2))"
    by (simp add: RunJoinNode_def s)
  have u: "fst (RunJoinNode env c w) \<noteq> Some (Returned (''join server node failed: '' @ f))" for f
  proof (cases "runJoinAgentNode env c w")
    case (fields r c1 w2)
    show ?thesis
    proof (cases r)
      case None
      with fields show ?thesis by (simp add: RunJoinNode_def s)
    next
      case (Some g)
      with fields show ?thesis by (cases g) (simp_all add: RunJoinNode_def s)
    qed
  qed
  show ?thesis
    using s r u by (simp add: checkServerNode_def serverNodeFiles_def enableServerService_def)
qed

theorem server_join_noop_witness:
  "runJoinServerNode example_options example_world = (None, example_world)
   \<and> (\<forall>f. fst (RunJoinNode example_env example_options example_world)
           \<noteq> Some (Returned (''join server node failed: '' @ f)))"
  using server_join_noop [of example_options "''10.0.0.10''" example_world example_env] by blast

subsection \<open>Validation\<close>

text \<open>
  C7. When the loaded topology knows no control-plane address, the invocation ends in
  \<open>ValidateArgs\<close> with a validation error: the process is terminated with that error and the
  world is untouched, so neither preflight nor any remote call has run. With at least one
  agent token given, the error is the one about the missing server node.
\<close>

theorem validation_rejects_missing_servers:
  assumes "Complete env c w = Inr c1" and "ServerIPs (deployConfig c1) = []"
  shows "\<exists>err. ValidateArgs c1 = Some err \<and> Run env c w = (Failed (Exited err), w)
    \<and> (agents c1 \<noteq> [] \<longrightarrow>
         err = ''join an agent node requires specifying at least one server node'')"
  using assms by (simp add: Run_def ValidateArgs_def)

theorem validation_rejects_missing_servers_witness:
  "Run example_env example_options (example_world\<lparr>disk := example_topology\<lparr>ServerIPs := []\<rparr>\<rparr>)
     = (Failed (Exited ''join an agent node requires specifying at least one server node''),
        example_world\<lparr>disk := example_topology\<lparr>ServerIPs := []\<rparr>\<rparr>)"
proof -
  let ?w = "example_world\<lparr>disk := example_topology\<lparr>ServerIPs := []\<rparr>\<rparr>"
  let ?c1 = "example_options\<lparr>deployConfig := example_topology\<lparr>ServerIPs := []\<rparr>,
               agentRegion := [(''default'', [''10.0.0.1'', ''10.0.0.2''])], servers := []\<rparr>"
  have a: "Complete example_env example_options ?w = Inr ?c1"
    by (simp add: Complete_def example_env_def example_options_def example_world_def
        example_topology_def)
  have b: "ServerIPs (deployConfig ?c1) = []" by simp
  have n: "agents ?c1 \<noteq> []" by (simp add: example_options_def)
  from validation_rejects_missing_servers [OF a b] n show ?thesis by auto
qed

subsection \<open>The liveness probe\<close>

lemma preCheckKcAgent_passes_iff:
  "fst (preCheckKcAgent env c ip w) \<longleftrightarrow>
     \<not> Exists (AgentRegions (deployConfig c)) ip \<and>
     (case SSHCmdWithSudo_res env (trace w) ip probe_cmd of
        Inl err \<Rightarrow> False
      | Inr ret \<Rightarrow> \<not> (ExitCode ret = 0 \<and> Stdout ret \<noteq> []))"
  by (simp add: preCheckKcAgent_def SSHCmdWithSudo_call_def split: sum.splits)

text \<open>
  C3. The claim is that a probe reporting the kc-agent service present makes
  \<open>preCheckKcAgent\<close> fail. The probe ends in \<open>grep -Fq\<close>, which reports a match by exit
  status 0 and prints nothing; the code asks for exit status 0 and a non-empty standard
  output, so on that answer \<open>preCheckKcAgent\<close> returns true and the address passes.
\<close>

theorem preCheckKcAgent_misses_quiet_probe:
  "preCheckKcAgent quiet_grep_env example_options ''10.0.0.1'' example_world
     = (True, emit (SSHCmdWithSudo ''10.0.0.1'' probe_cmd) example_world)"
  by (simp add: preCheckKcAgent_def SSHCmdWithSudo_call_def quiet_grep_env_def example_env_def
      example_options_def example_topology_def example_world_def Exists_def emit_def)

subsection \<open>Configuration rendering\<close>




subsection \<open>Every piece of the run satisfies a summary\<close>

lemma calls_ok_refl: "calls_ok env R \<Longrightarrow> R w r w"
  by (simp add: calls_ok_def)

lemma calls_ok_seq: "calls_ok env R \<Longrightarrow> R w None w1 \<Longrightarrow> R w1 r w2 \<Longrightarrow> R w r w2"
  unfolding calls_ok_def by meson

lemma calls_ok_sudo: "calls_ok env R \<Longrightarrow> R w r (emit (SudoPreCheck ips) w)"
  by (simp add: calls_ok_def)

lemma calls_ok_ssh: "calls_ok env R \<Longrightarrow> R w r (emit (SSHCmdWithSudo ip cmd) w)"
  by (simp add: calls_ok_def)

lemma calls_ok_push: "calls_ok env R \<Longrightarrow> R w r (emit (SendPackageV2 pkg nodes dst None None) w)"
  by (simp add: calls_ok_def)

lemma calls_ok_download:
  "calls_ok env R \<Longrightarrow> f \<notin> set (local_files w) \<Longrightarrow> DownloadSudo_call env ip f f w = (None, w1)
     \<Longrightarrow> R w r w1"
proof -
  assume R: "calls_ok env R" and nf: "f \<notin> set (local_files w)"
    and d: "DownloadSudo_call env ip f f w = (None, w1)"
  from d have "DownloadSudo_res env (trace w) ip f f = None"
    by (simp add: DownloadSudo_call_def split: option.splits)
  with R nf have "R w r (snd (DownloadSudo_call env ip f f w))"
    unfolding calls_ok_def by meson
  with d show ?thesis by simp
qed

lemma calls_ok_download_failed:
  "calls_ok env R \<Longrightarrow> f \<notin> set (local_files w) \<Longrightarrow> DownloadSudo_call env ip f f w = (Some err, w1)
     \<Longrightarrow> R w (Some g) w1"
proof -
  assume R: "calls_ok env R" and nf: "f \<notin> set (local_files w)"
    and d: "DownloadSudo_call env ip f f w = (Some err, w1)"
  from d have "DownloadSudo_res env (trace w) ip f f \<noteq> None"
    by (simp add: DownloadSudo_call_def split: option.splits)
  with R nf have "R w (Some g) (snd (DownloadSudo_call env ip f f w))"
    unfolding calls_ok_def by meson
  with d show ?thesis by simp
qed

lemma sendCerts_download_summary:
  assumes R: "calls_ok env R"
  shows "sendCerts_download env c files w = (r, w') \<Longrightarrow> R w r w'"
proof (induction files arbitrary: w)
  case Nil
  then show ?case using calls_ok_refl [OF R] by simp
next
  case (Cons fl files)
  show ?case
  proof (cases "IsFileExist env fl w")
    case (Inl err)
    with Cons.prems show ?thesis using calls_ok_refl [OF R] by auto
  next
    case (Inr exist)
    show ?thesis
    proof (cases exist)
      case True
      with Inr Cons show ?thesis by simp
    next
      case False
      with Inr have nf: "fl \<notin> set (local_files w)"
        by (auto simp: IsFileExist_def split: option.splits)
      show ?thesis
      proof (cases "ServerIPs (deployConfig c)")
        case Nil
        with Inr False Cons.prems show ?thesis using calls_ok_refl [OF R] by auto
      next
        case (Cons server ss)
        obtain r1 w1 where d: "DownloadSudo_call env server fl fl w = (r1, w1)"
          by (cases "DownloadSudo_call env server fl fl w")
        show ?thesis
        proof (cases r1)
          case None
          with d Cons Inr False Cons.prems have "sendCerts_download env c files w1 = (r, w')"
            by simp
          then have "R w1 r w'" by (rule Cons.IH)
          moreover have "R w None w1" using calls_ok_download [OF R nf] d None by simp
          ultimately show ?thesis by (rule calls_ok_seq [OF R, rotated])
        next
          case (Some err)
          with d Cons Inr False Cons.prems
          have "r = Some (Returned (''download cert from server: '' @ err))" and "w' = w1"
            by simp_all
          then show ?thesis using calls_ok_download_failed [OF R nf] d Some by simp
        qed
      qed
    qed
  qed
qed


lemma ssh_summary:
  "calls_ok env R \<Longrightarrow> SSHCmdWithSudo_call env ip cmd w = (x, w1) \<Longrightarrow> R w r w1"
  by (auto simp: SSHCmdWithSudo_call_def calls_ok_ssh)

lemma sudo_summary:
  "calls_ok env R \<Longrightarrow> sudo_PreCheck env ips w = (x, w1) \<Longrightarrow> R w r w1"
  by (auto simp: sudo_PreCheck_def calls_ok_sudo)

lemma push_summary:
  "calls_ok env R \<Longrightarrow> SendPackageV2_call env pkg nodes dst None None w = (x, w1) \<Longrightarrow> R w r w1"
  by (auto simp: SendPackageV2_call_def calls_ok_push)

lemma install_summary:
  "install_ok R \<Longrightarrow> SendPackageV2_call env pkg [node] dst None (Some hook) w = (x, w1)
     \<Longrightarrow> R w r w1"
  by (auto simp: SendPackageV2_call_def install_ok_def)

lemma write_summary:
  "write_ok env R \<Longrightarrow> Write env dc w = (x, w1) \<Longrightarrow> R w r w1"
  unfolding write_ok_def by (metis snd_conv)

lemma sendCerts_summary:
  assumes R: "calls_ok env R" and run: "sendCerts env c w = (r, w')"
  shows "R w r w'"
proof -
  let ?mq = "MQ (deployConfig c)"
  obtain r0 w1 where d: "sendCerts_download env c [CA ?mq, ClientCert ?mq, ClientKey ?mq] w = (r0, w1)"
    by (cases "sendCerts_download env c [CA ?mq, ClientCert ?mq, ClientKey ?mq] w")
  have d': "R w r0 w1" using sendCerts_download_summary [OF R d] .
  show ?thesis
  proof (cases r0)
    case (Some f)
    with d run have "r = Some f" "w' = w1" by (simp_all add: sendCerts_def Let_def)
    with d' Some show ?thesis by simp
  next
    case None
    note r0 = None
    show ?thesis
    proof (cases "TLS ?mq")
      case False
      with d r0 run have "r = None" "w' = w1" by (simp_all add: sendCerts_def Let_def)
      with d' r0 show ?thesis by simp
    next
      case True
      obtain dCa where dCa: "dCa = (if External ?mq then filepath_Dir env (CA ?mq)
           else filepath_Join env [DefaultKcAgentConfigPath env, DefaultCaPath env])" by simp
      obtain dCert where dCert: "dCert = (if External ?mq then filepath_Dir env (ClientCert ?mq)
           else filepath_Join env [DefaultKcAgentConfigPath env, DefaultNatsPKIPath env])" by simp
      obtain dKey where dKey: "dKey = (if External ?mq then filepath_Dir env (ClientKey ?mq)
           else filepath_Join env [DefaultKcAgentConfigPath env, DefaultNatsPKIPath env])" by simp
      obtain r2 w2 where p2: "SendPackageV2_call env (CA ?mq) (ListIP (agentRegion c)) dCa None None w1 = (r2, w2)"
        by (cases "SendPackageV2_call env (CA ?mq) (ListIP (agentRegion c)) dCa None None w1")
      obtain r3 w3 where p3: "SendPackageV2_call env (ClientCert ?mq) (ListIP (agentRegion c)) dCert None None w2 = (r3, w3)"
        by (cases "SendPackageV2_call env (ClientCert ?mq) (ListIP (agentRegion c)) dCert None None w2")
      obtain r4 w4 where p4: "SendPackageV2_call env (ClientKey ?mq) (ListIP (agentRegion c)) dKey None None w3 = (r4, w4)"
        by (cases "SendPackageV2_call env (ClientKey ?mq) (ListIP (agentRegion c)) dKey None None w3")
      have s2: "R w x w2" for x
        using calls_ok_seq [OF R] d' r0 push_summary [OF R p2] by blast
      have s3: "R w x w3" for x
        using calls_ok_seq [OF R s2] push_summary [OF R p3] by blast
      have s4: "R w x w4" for x
        using calls_ok_seq [OF R s3] push_summary [OF R p4] by blast
      have "w' = w2 \<or> w' = w3 \<or> w' = w4"
        using run d r0 True p2 p3 p4 dCa dCert dKey
        by (auto simp: sendCerts_def Let_def split: option.splits)
      with s2 s3 s4 show ?thesis by blast
    qed
  qed
qed

lemma agentNodeFiles_cmds_summary:
  assumes R: "calls_ok env R"
  shows "agentNodeFiles_cmds env node cmds w = (r, w') \<Longrightarrow> R w r w'"
proof (induction cmds arbitrary: w)
  case Nil
  then show ?case using calls_ok_refl [OF R] by simp
next
  case (Cons cmd cmds)
  obtain x w1 where s: "SSHCmdWithSudo_call env node cmd w = (x, w1)"
    by (cases "SSHCmdWithSudo_call env node cmd w")
  have s': "R w y w1" for y using ssh_summary [OF R s] .
  show ?case
  proof (cases "case x of Inl err \<Rightarrow> True | Inr ret \<Rightarrow> Result_Error ret \<noteq> None")
    case True
    with s Cons.prems have "w' = w1" by (auto split: sum.splits option.splits)
    with s' show ?thesis by simp
  next
    case False
    with s Cons.prems have "agentNodeFiles_cmds env node cmds w1 = (r, w')"
      by (auto split: sum.splits option.splits)
    then have "R w1 r w'" by (rule Cons.IH)
    with s' show ?thesis using calls_ok_seq [OF R] by blast
  qed
qed

lemma agentNodeFiles_summary:
  assumes R: "calls_ok env R" and I: "install_ok R" and run: "agentNodeFiles env c region node w = (r, w')"
  shows "R w r w'"
proof -
  obtain r1 w1 where i: "SendPackageV2_call env (Pkg (deployConfig c)) [node] (DefaultPkgPath env) None
             (Some (install_hook env c)) w = (r1, w1)"
    by (cases "SendPackageV2_call env (Pkg (deployConfig c)) [node] (DefaultPkgPath env) None
             (Some (install_hook env c)) w")
  have i': "R w y w1" for y using install_summary [OF I i] .
  obtain r2 w2 where c2: "sendCerts env c w1 = (r2, w2)" by (cases "sendCerts env c w1")
  have c2': "R w1 r2 w2" using sendCerts_summary [OF R c2] .
  have s2: "R w r2 w2" using calls_ok_seq [OF R i' c2'] .
  show ?thesis
  proof (cases r1)
    case (Some err)
    with i run have "w' = w1" by (simp add: agentNodeFiles_def)
    with i' show ?thesis by simp
  next
    case None
    note r1 = None
    show ?thesis
    proof (cases r2)
      case (Some f)
      with i r1 c2 run have "w' = w2" "r = r2" by (simp_all add: agentNodeFiles_def)
      with s2 show ?thesis by simp
    next
      case None
      note r2 = None
      show ?thesis
      proof (cases "getKcAgentConfigTemplateContent env c region w2")
        case (Inl f)
        with i r1 c2 r2 run have "w' = w2" by (simp add: agentNodeFiles_def)
        moreover have "R w r w2" using calls_ok_seq [OF R s2 [unfolded r2] calls_ok_refl [OF R]] .
        ultimately show ?thesis by simp
      next
        case (Inr agentConfig)
        with i r1 c2 r2 run have "agentNodeFiles_cmds env node
                    [WrapEcho env (KcAgentService env) ''/usr/lib/systemd/system/kc-agent.service'',
                     ''mkdir -pv /etc/kubeclipper-agent '',
                     WrapEcho env agentConfig ''/etc/kubeclipper-agent/kubeclipper-agent.yaml'']
                    w2 = (r, w')" by (simp add: agentNodeFiles_def)
        then have "R w2 r w'" by (rule agentNodeFiles_cmds_summary [OF R])
        with s2 r2 show ?thesis using calls_ok_seq [OF R] by blast
      qed
    qed
  qed
qed

lemma enableAgent_summary:
  assumes R: "calls_ok env R" and W: "write_ok env R"
    and run: "enableAgent env c region node w = (r, c', w')"
  shows "R w r w'"
proof -
  obtain x w1 where s: "SSHCmdWithSudo_call env node enable_cmd w = (x, w1)"
    by (cases "SSHCmdWithSudo_call env node enable_cmd w")
  have s': "R w y w1" for y using ssh_summary [OF R s] .
  let ?dc = "(deployConfig c)\<lparr>AgentRegions := Add region node (AgentRegions (deployConfig c))\<rparr>"
  obtain r2 w2 where wr: "Write env ?dc w1 = (r2, w2)" by (cases "Write env ?dc w1")
  have "R w1 y w2" for y using write_summary [OF W wr] .
  with s' have s2: "R w y w2" for y using calls_ok_seq [OF R] by blast
  have "w' = w1 \<or> w' = w2"
    using run s wr by (auto simp: enableAgent_def Let_def split: sum.splits option.splits)
  with s' s2 show ?thesis by blast
qed

lemma runJoinAgentNode_region_summary:
  assumes R: "calls_ok env R" and I: "install_ok R" and W: "write_ok env R"
  shows "runJoinAgentNode_region env c region ags w = (r, c', w') \<Longrightarrow> R w r w'"
proof (induction ags arbitrary: c w)
  case Nil
  then show ?case using calls_ok_refl [OF R] by simp
next
  case (Cons agent rest)
  obtain r1 w1 where a: "agentNodeFiles env c region agent w = (r1, w1)"
    by (cases "agentNodeFiles env c region agent w")
  have a': "R w r1 w1" using agentNodeFiles_summary [OF R I a] .
  show ?case
  proof (cases r1)
    case (Some f)
    with a Cons.prems have "r = r1" "w' = w1" by simp_all
    with a' show ?thesis by simp
  next
    case None
    note r1 = None
    obtain r2 c2 w2 where e: "enableAgent env c region agent w1 = (r2, c2, w2)"
      by (cases "enableAgent env c region agent w1")
    have e': "R w1 r2 w2" using enableAgent_summary [OF R W e] .
    have s2: "R w r2 w2" using calls_ok_seq [OF R a' [unfolded r1] e'] .
    show ?thesis
    proof (cases r2)
      case (Some f)
      with a r1 e Cons.prems have "r = r2" "w' = w2" by simp_all
      with s2 show ?thesis by simp
    next
      case None
      with a r1 e Cons.prems have "runJoinAgentNode_region env c2 region rest w2 = (r, c', w')"
        by simp
      then have "R w2 r w'" by (rule Cons.IH)
      with s2 None show ?thesis using calls_ok_seq [OF R] by blast
    qed
  qed
qed

lemma runJoinAgentNode_regions_summary:
  assumes R: "calls_ok env R" and I: "install_ok R" and W: "write_ok env R"
  shows "runJoinAgentNode_regions env c its w = (r, c', w') \<Longrightarrow> R w r w'"
proof (induction its arbitrary: c w)
  case Nil
  then show ?case using calls_ok_refl [OF R] by simp
next
  case (Cons it rest)
  obtain region ags where it: "it = (region, ags)" by (cases it)
  obtain r1 c1 w1 where a: "runJoinAgentNode_region env c region ags w = (r1, c1, w1)"
    by (cases "runJoinAgentNode_region env c region ags w")
  have a': "R w r1 w1" using runJoinAgentNode_region_summary [OF R I W a] .
  show ?case
  proof (cases r1)
    case (Some f)
    with a it Cons.prems have "r = r1" "w' = w1" by simp_all
    with a' show ?thesis by simp
  next
    case None
    with a it Cons.prems have "runJoinAgentNode_regions env c1 rest w1 = (r, c', w')" by simp
    then have "R w1 r w'" by (rule Cons.IH)
    with a' None show ?thesis using calls_ok_seq [OF R] by blast
  qed
qed


lemma runJoinAgentNode_summary:
  assumes "calls_ok env R" and "install_ok R" and "write_ok env R"
    and "runJoinAgentNode env c w = (r, c', w')"
  shows "R w r w'"
  using assms runJoinAgentNode_regions_summary unfolding runJoinAgentNode_def by blast

lemma runJoinServerNode_same: "runJoinServerNode c w = (None, w)"
  by (simp add: runJoinServerNode_def runJoinServerNode_loop_nil)

lemma RunJoinFunc_summary:
  assumes R: "calls_ok env R" and I: "install_ok R" and W: "write_ok env R"
    and run: "RunJoinFunc env c w = (r, c', w')"
  shows "\<exists>r0. R w r0 w' \<and> (r = None \<longleftrightarrow> r0 = None)"
proof -
  obtain r0 c0 w0 where a: "runJoinAgentNode env c w = (r0, c0, w0)"
    by (cases "runJoinAgentNode env c w")
  have "R w r0 w0" using runJoinAgentNode_summary [OF R I W a] .
  moreover have "w' = w0 \<and> (r = None \<longleftrightarrow> r0 = None)"
    using run a
    by (auto simp: RunJoinFunc_def RunJoinNode_def runJoinServerNode_same split: option.splits)
  ultimately show ?thesis by blast
qed

lemma preCheckKcAgent_summary:
  assumes R: "calls_ok env R" and run: "preCheckKcAgent env c ip w = (b, w')"
  shows "R w r w'"
proof (cases "Exists (AgentRegions (deployConfig c)) ip")
  case True
  with run have "w' = w" by (simp add: preCheckKcAgent_def)
  then show ?thesis using calls_ok_refl [OF R] by simp
next
  case False
  obtain x w1 where s: "SSHCmdWithSudo_call env ip probe_cmd w = (x, w1)"
    by (cases "SSHCmdWithSudo_call env ip probe_cmd w")
  with False run have "w' = w1"
    by (auto simp: preCheckKcAgent_def split: sum.splits if_splits)
  then show ?thesis using ssh_summary [OF R s] by simp
qed

lemma preCheck_agents_summary:
  assumes R: "calls_ok env R"
  shows "preCheck_agents env c ips w = (b, w') \<Longrightarrow> R w r w'"
proof (induction ips arbitrary: w)
  case Nil
  then show ?case using calls_ok_refl [OF R] by simp
next
  case (Cons ip ips)
  obtain b1 w1 where k: "preCheckKcAgent env c ip w = (b1, w1)"
    by (cases "preCheckKcAgent env c ip w")
  have k': "R w y w1" for y using preCheckKcAgent_summary [OF R k] .
  show ?case
  proof (cases b1)
    case False
    with k Cons.prems have "w' = w1" by simp
    with k' show ?thesis by simp
  next
    case True
    with k Cons.prems have "preCheck_agents env c ips w1 = (b, w')" by simp
    then have "R w1 r w'" by (rule Cons.IH)
    with k' show ?thesis using calls_ok_seq [OF R] by blast
  qed
qed

lemma preCheck_summary:
  assumes R: "calls_ok env R" and run: "preCheck env c w = (b, w')"
  shows "R w r w'"
proof -
  obtain b1 w1 where k: "sudo_PreCheck env (ListIP (agentRegion c) @ servers c) w = (b1, w1)"
    by (cases "sudo_PreCheck env (ListIP (agentRegion c) @ servers c) w")
  have k': "R w y w1" for y using sudo_summary [OF R k] .
  show ?thesis
  proof (cases b1)
    case False
    with k run have "w' = w1" by (simp add: preCheck_def)
    with k' show ?thesis by simp
  next
    case True
    with k run have "preCheck_agents env c (ListIP (agentRegion c)) w1 = (b, w')"
      by (simp add: preCheck_def)
    then have "R w1 r w'" by (rule preCheck_agents_summary [OF R])
    with k' show ?thesis using calls_ok_seq [OF R] by blast
  qed
qed

lemma Run_summary:
  assumes R: "calls_ok env R" and I: "install_ok R" and W: "write_ok env R"
  shows "\<exists>r. R w r (snd (Run env c w))"
proof (cases "Complete env c w")
  case (Inl f)
  then show ?thesis using calls_ok_refl [OF R] by (auto simp: Run_def)
next
  case (Inr c1)
  note c1 = Inr
  show ?thesis
  proof (cases "ValidateArgs c1")
    case (Some err)
    with c1 show ?thesis using calls_ok_refl [OF R] by (auto simp: Run_def)
  next
    case None
    note v = None
    obtain b w1 where p: "preCheck env c1 w = (b, w1)" by (cases "preCheck env c1 w")
    have p': "R w y w1" for y using preCheck_summary [OF R p] .
    show ?thesis
    proof (cases b)
      case False
      with c1 v p have "snd (Run env c w) = w1" by (simp add: Run_def)
      with p' show ?thesis by auto
    next
      case True
      obtain r2 c2 w2 where j: "RunJoinFunc env c1 w1 = (r2, c2, w2)"
        by (cases "RunJoinFunc env c1 w1")
      from RunJoinFunc_summary [OF R I W j] obtain r0 where "R w1 r0 w2" by blast
      with p' have "R w r0 w2" using calls_ok_seq [OF R] by blast
      moreover from c1 v p True j have "snd (Run env c w) = w2"
        by (simp add: Run_def split: option.splits)
      ultimately show ?thesis by auto
    qed
  qed
qed

subsection \<open>Certificate material is fetched once\<close>

lemma downloads_append [simp]: "downloads f (xs @ ys) = downloads f xs + downloads f ys"
  by (simp add: downloads_def)

lemma downloads_Nil [simp]: "downloads f [] = 0"
  by (simp add: downloads_def)

lemma fetch_once_emit:
  "\<forall>f. \<not> is_download f e \<Longrightarrow> fetch_once w r (emit e w)"
  by (simp add: fetch_once_def emit_def downloads_def)

lemma fetch_once_seq:
  assumes a: "fetch_once w None w1" and b: "fetch_once w1 r w2"
  shows "fetch_once w r w2"
proof -
  from a obtain es1 where t1: "trace w1 = trace w @ es1"
    and l1: "set (local_files w) \<subseteq> set (local_files w1)"
    and d1: "\<And>f. downloads f es1 \<le> 1"
    and n1: "\<And>f. 0 < downloads f es1 \<Longrightarrow> f \<notin> set (local_files w) \<and> f \<in> set (local_files w1)"
    unfolding fetch_once_def by auto
  from b obtain es2 where t2: "trace w2 = trace w1 @ es2"
    and l2: "set (local_files w1) \<subseteq> set (local_files w2)"
    and d2: "\<And>f. downloads f es2 \<le> 1"
    and n2: "\<And>f. 0 < downloads f es2 \<Longrightarrow> f \<notin> set (local_files w1) \<and> (r = None \<longrightarrow> f \<in> set (local_files w2))"
    unfolding fetch_once_def by auto
  have "downloads f (es1 @ es2) \<le> 1 \<and>
        (0 < downloads f (es1 @ es2) \<longrightarrow>
           f \<notin> set (local_files w) \<and> (r = None \<longrightarrow> f \<in> set (local_files w2)))" for f
  proof (cases "0 < downloads f es1")
    case True
    with n1 have "f \<notin> set (local_files w)" "f \<in> set (local_files w1)" by auto
    with n2 [of f] have "downloads f es2 = 0" by auto
    with d1 [of f] \<open>f \<notin> set (local_files w)\<close> \<open>f \<in> set (local_files w1)\<close> l2
    show ?thesis by auto
  next
    case False
    then have z: "downloads f es1 = 0" by simp
    show ?thesis using z d2 [of f] n2 [of f] l1 by auto
  qed
  with t1 t2 l1 l2 show ?thesis
    unfolding fetch_once_def by (intro exI [of _ "es1 @ es2"]) auto
qed

lemma fetch_once_calls_ok: "calls_ok env fetch_once"
  unfolding calls_ok_def
proof (intro conjI allI impI)
  fix w r show "fetch_once w r w" by (simp add: fetch_once_def)
next
  fix w w1 r w2 assume "fetch_once w None w1" "fetch_once w1 r w2"
  then show "fetch_once w r w2" by (rule fetch_once_seq)
next
  fix w r ips show "fetch_once w r (emit (SudoPreCheck ips) w)" by (simp add: fetch_once_emit)
next
  fix w r ip cmd show "fetch_once w r (emit (SSHCmdWithSudo ip cmd) w)" by (simp add: fetch_once_emit)
next
  fix w r pkg nodes dst show "fetch_once w r (emit (SendPackageV2 pkg nodes dst None None) w)"
    by (simp add: fetch_once_emit)
next
  fix w :: world and r ip f
  assume "f \<notin> set (local_files w)" "DownloadSudo_res env (trace w) ip f f = None"
  then show "fetch_once w r (snd (DownloadSudo_call env ip f f w))"
    by (auto simp: fetch_once_def DownloadSudo_call_def emit_def downloads_def)
next
  fix w :: world and g ip f
  assume "f \<notin> set (local_files w)" "DownloadSudo_res env (trace w) ip f f \<noteq> None"
  then show "fetch_once w (Some g) (snd (DownloadSudo_call env ip f f w))"
    by (auto simp: fetch_once_def DownloadSudo_call_def emit_def downloads_def)
qed

lemma fetch_once_install_ok: "install_ok fetch_once"
  by (simp add: install_ok_def fetch_once_emit)

lemma fetch_once_write_ok: "write_ok env fetch_once"
  by (auto simp: write_ok_def Write_def fetch_once_def emit_def downloads_def split: option.splits)

text \<open>
  C4. In a join run, whatever the number of agent nodes, each file is fetched to local
  storage at most once (so each of the CA, client certificate and client key is), and a
  file that is in local storage when the run starts is not fetched at all.
\<close>

theorem certificates_fetched_at_most_once:
  "prefix (trace w) (trace (snd (Run env c w)))
   \<and> downloads f (new_events w (snd (Run env c w))) \<le> 1
   \<and> (f \<in> set (local_files w) \<longrightarrow> downloads f (new_events w (snd (Run env c w))) = 0)"
proof -
  from Run_summary [OF fetch_once_calls_ok fetch_once_install_ok fetch_once_write_ok]
  obtain r where "fetch_once w r (snd (Run env c w))" by blast
  then obtain es where t: "trace (snd (Run env c w)) = trace w @ es"
    and d: "downloads f es \<le> 1"
    and n: "0 < downloads f es \<longrightarrow> f \<notin> set (local_files w)"
    unfolding fetch_once_def by auto
  from t have "new_events w (snd (Run env c w)) = es" by (simp add: new_events_def)
  with t d n show ?thesis by auto
qed

theorem certificates_fetched_at_most_once_witness:
  "downloads ''ca.crt'' (new_events (example_world\<lparr>local_files := [''ca.crt'']\<rparr>)
      (snd (Run example_env example_options (example_world\<lparr>local_files := [''ca.crt'']\<rparr>)))) = 0"
  using certificates_fetched_at_most_once [of "example_world\<lparr>local_files := [''ca.crt'']\<rparr>"
      example_env example_options "''ca.crt''"]
  by simp

subsection \<open>Trust material: what the TLS flag gates\<close>






subsection \<open>Preflight on an address that is already a member\<close>

lemma preCheckKcAgent_world:
  "preCheckKcAgent env c ip w = (b, w') \<Longrightarrow>
     disk w' = disk w \<and> local_files w' = local_files w \<and>
     (if Exists (AgentRegions (deployConfig c)) ip then \<not> b \<and> trace w' = trace w
      else trace w' = trace w @ [SSHCmdWithSudo ip probe_cmd])"
  by (auto simp: preCheckKcAgent_def SSHCmdWithSudo_call_def emit_def split: sum.splits if_splits)

lemma preCheck_agents_member:
  assumes "\<exists>ip\<in>set ips. Exists (AgentRegions (deployConfig c)) ip"
  shows "\<exists>k w'. preCheck_agents env c ips w = (False, w') \<and> disk w' = disk w
           \<and> local_files w' = local_files w
           \<and> trace w' = trace w @ map (\<lambda>ip. SSHCmdWithSudo ip probe_cmd)
               (take k (takeWhile (\<lambda>ip. \<not> Exists (AgentRegions (deployConfig c)) ip) ips))"
  using assms
proof (induction ips arbitrary: w)
  case Nil
  then show ?case by simp
next
  case (Cons ip ips)
  obtain b w1 where k: "preCheckKcAgent env c ip w = (b, w1)"
    by (cases "preCheckKcAgent env c ip w")
  note kw = preCheckKcAgent_world [OF k]
  show ?case
  proof (cases "Exists (AgentRegions (deployConfig c)) ip")
    case True
    with k kw have "preCheck_agents env c (ip # ips) w = (False, w1)" "trace w1 = trace w"
      by auto
    with kw True show ?thesis by (intro exI [of _ 0] exI [of _ w1]) simp
  next
    case False
    with kw have t1: "trace w1 = trace w @ [SSHCmdWithSudo ip probe_cmd]" by simp
    show ?thesis
    proof (cases b)
      case False
      with k have "preCheck_agents env c (ip # ips) w = (False, w1)" by simp
      with kw t1 \<open>\<not> Exists (AgentRegions (deployConfig c)) ip\<close>
      show ?thesis by (intro exI [of _ 1] exI [of _ w1]) simp
    next
      case True
      from Cons.prems \<open>\<not> Exists (AgentRegions (deployConfig c)) ip\<close>
      have "\<exists>ip\<in>set ips. Exists (AgentRegions (deployConfig c)) ip" by auto
      from Cons.IH [OF this, of w1] obtain k' w' where
        r: "preCheck_agents env c ips w1 = (False, w')" and d: "disk w' = disk w1"
        and l: "local_files w' = local_files w1"
        and t: "trace w' = trace w1 @ map (\<lambda>ip. SSHCmdWithSudo ip probe_cmd)
               (take k' (takeWhile (\<lambda>ip. \<not> Exists (AgentRegions (deployConfig c)) ip) ips))"
        by blast
      from k True r have "preCheck_agents env c (ip # ips) w = (False, w')" by simp
      with kw d l t t1 \<open>\<not> Exists (AgentRegions (deployConfig c)) ip\<close>
      show ?thesis by (intro exI [of _ "Suc k'"] exI [of _ w']) simp
    qed
  qed
qed

text \<open>
  C2, amended. When the invocation reaches preflight and some candidate address is already in
  \<open>AgentRegions\<close>, the run ends in preflight with the stored topology and local storage
  unchanged. The only calls issued are the sudo pre-check over the candidate and server
  addresses and read-only liveness probes, in order, of candidates that come before the first
  address that is already a member.
\<close>

theorem preflight_rejects_member:
  assumes "Complete env c w = Inr c1" and "ValidateArgs c1 = None"
    and "\<exists>ip\<in>set (ListIP (agentRegion c1)). Exists (AgentRegions (deployConfig c1)) ip"
  shows "\<exists>k w'. Run env c w = (PreCheckFailed, w') \<and> disk w' = disk w
           \<and> local_files w' = local_files w
           \<and> trace w' = trace w @ SudoPreCheck (ListIP (agentRegion c1) @ servers c1) #
               map (\<lambda>ip. SSHCmdWithSudo ip probe_cmd)
                 (take k (takeWhile (\<lambda>ip. \<not> Exists (AgentRegions (deployConfig c1)) ip)
                    (ListIP (agentRegion c1))))"
proof -
  let ?ips = "ListIP (agentRegion c1)"
  obtain b w1 where s: "sudo_PreCheck env (?ips @ servers c1) w = (b, w1)"
    by (cases "sudo_PreCheck env (?ips @ servers c1) w")
  then have w1: "trace w1 = trace w @ [SudoPreCheck (?ips @ servers c1)]" "disk w1 = disk w"
    "local_files w1 = local_files w"
    by (auto simp: sudo_PreCheck_def emit_def)
  show ?thesis
  proof (cases b)
    case False
    with s assms(1,2) have "Run env c w = (PreCheckFailed, w1)"
      by (simp add: Run_def preCheck_def)
    with w1 show ?thesis by (intro exI [of _ 0] exI [of _ w1]) simp
  next
    case True
    from preCheck_agents_member [OF assms(3), of env w1] obtain k w' where
      r: "preCheck_agents env c1 ?ips w1 = (False, w')" and d: "disk w' = disk w1"
      and l: "local_files w' = local_files w1"
      and t: "trace w' = trace w1 @ map (\<lambda>ip. SSHCmdWithSudo ip probe_cmd)
               (take k (takeWhile (\<lambda>ip. \<not> Exists (AgentRegions (deployConfig c1)) ip) ?ips))"
      by blast
    from s True r assms(1,2) have "Run env c w = (PreCheckFailed, w')"
      by (simp add: Run_def preCheck_def)
    with w1 d l t show ?thesis by (intro exI [of _ k] exI [of _ w']) simp
  qed
qed

text \<open>
  C2, as stated, fails: with candidates 10.0.0.1 and 10.0.0.2, of which the second is already
  a member, the run aborts in preflight, but only after the sudo pre-check and the liveness
  probe of 10.0.0.1 went over the transport.
\<close>

theorem preflight_rejects_member_counterexample:
  "Exists (AgentRegions (disk member_world)) ''10.0.0.2''
   \<and> Run example_env example_options member_world =
       (PreCheckFailed,
        member_world\<lparr>trace := [SudoPreCheck [''10.0.0.1'', ''10.0.0.2''],
                               SSHCmdWithSudo ''10.0.0.1'' probe_cmd]\<rparr>)"
  by (simp add: Run_def Complete_def ValidateArgs_def preCheck_def preCheckKcAgent_def
      sudo_PreCheck_def SSHCmdWithSudo_call_def emit_def ListIP_def Exists_def
      member_world_def example_world_def example_topology_def example_options_def example_env_def)

theorem preflight_rejects_member_witness:
  "\<exists>k w'. Run example_env example_options member_world = (PreCheckFailed, w')
      \<and> disk w' = disk member_world
      \<and> trace w' = SudoPreCheck [''10.0.0.1'', ''10.0.0.2''] #
               map (\<lambda>ip. SSHCmdWithSudo ip probe_cmd) (take k [''10.0.0.1''])"
proof -
  let ?c1 = "example_options\<lparr>deployConfig := disk member_world,
               agentRegion := [(''default'', [''10.0.0.1'', ''10.0.0.2''])], servers := []\<rparr>"
  have a: "Complete example_env example_options member_world = Inr ?c1"
    by (simp add: Complete_def example_env_def example_options_def member_world_def
        example_world_def example_topology_def)
  have b: "ValidateArgs ?c1 = None"
    by (simp add: ValidateArgs_def example_options_def member_world_def example_topology_def)
  have m: "\<exists>ip\<in>set (ListIP (agentRegion ?c1)). Exists (AgentRegions (deployConfig ?c1)) ip"
    by (simp add: ListIP_def Exists_def member_world_def example_topology_def)
  from preflight_rejects_member [OF a b m] obtain k w' where
    "Run example_env example_options member_world = (PreCheckFailed, w')"
    "disk w' = disk member_world"
    "trace w' = trace member_world @ SudoPreCheck (ListIP (agentRegion ?c1) @ servers ?c1) #
               map (\<lambda>ip. SSHCmdWithSudo ip probe_cmd)
                 (take k (takeWhile (\<lambda>ip. \<not> Exists (AgentRegions (deployConfig ?c1)) ip)
                    (ListIP (agentRegion ?c1))))"
    by blast
  then show ?thesis
    by (intro exI [of _ k] exI [of _ w'])
       (simp add: ListIP_def Exists_def member_world_def example_topology_def example_world_def)
qed

subsection \<open>The order in which nodes are provisioned\<close>

lemma region_as_nodes:
  "runJoinAgentNode_region env c region ags w = join_nodes env c (map (Pair region) ags) w"
  by (induction ags arbitrary: c w) (auto split: prod.splits option.splits)

lemma join_nodes_append:
  "join_nodes env c (xs @ ys) w =
     (case join_nodes env c xs w of
        (Some f, c1, w1) \<Rightarrow> (Some f, c1, w1)
      | (None, c1, w1) \<Rightarrow> join_nodes env c1 ys w1)"
  by (induction xs arbitrary: c w) (auto split: prod.splits option.splits)

lemma regions_as_nodes:
  "runJoinAgentNode_regions env c its w = join_nodes env c (nodes_of its) w"
proof (induction its arbitrary: c w)
  case Nil
  then show ?case by (simp add: nodes_of_def)
next
  case (Cons it its)
  obtain region ags where it: "it = (region, ags)" by (cases it)
  have n: "nodes_of (it # its) = map (Pair region) ags @ nodes_of its"
    by (simp add: nodes_of_def it)
  show ?case
    unfolding n join_nodes_append
    by (simp add: it region_as_nodes Cons.IH split: prod.splits option.splits)
qed

lemma install_targets_append [simp]:
  "install_targets (xs @ ys) = install_targets xs @ install_targets ys"
  by (simp add: install_targets_def)

lemma install_targets_Nil [simp]: "install_targets [] = []"
  by (simp add: install_targets_def)







lemmas run_defs =
  runJoinAgentNode_def agentNodeFiles_def sendCerts_def enableAgent_def
  getKcAgentConfigTemplateContent_def SendPackageV2_call_def SSHCmdWithSudo_call_def
  DownloadSudo_call_def IsFileExist_def Write_def Result_Error_def emit_def Let_def
  probe_cmd_def enable_cmd_def




subsection \<open>The stored topology only grows\<close>

lemma members_Add:
  "set (concat (map snd (Add region n a))) = insert n (set (concat (map snd a)))"
  by (induction region n a rule: Add.induct) auto

lemma Exists_Add: "Exists (Add region n a) x \<longleftrightarrow> x = n \<or> Exists a x"
  unfolding Exists_def members_Add by auto

lemma region_ips_Add_same: "n \<in> set (region_ips (Add region n a) region)"
  by (induction region n a rule: Add.induct) (auto simp: region_ips_def)

lemma region_ips_Add_mono: "x \<in> set (region_ips a r) \<Longrightarrow> x \<in> set (region_ips (Add region n a) r)"
  by (induction region n a rule: Add.induct) (auto simp: region_ips_def split: if_splits)

lemma topology_grows_refl: "topology_grows d d"
  by (simp add: topology_grows_def)

lemma topology_grows_trans:
  "topology_grows d1 d2 \<Longrightarrow> topology_grows d2 d3 \<Longrightarrow> topology_grows d1 d3"
  unfolding topology_grows_def
  by (metis (no_types, lifting) DeployConfig.surjective DeployConfig.update_convs(3) subset_trans)

lemma topology_grows_Add:
  "topology_grows d (d\<lparr>AgentRegions := Add region n (AgentRegions d)\<rparr>)"
  by (auto simp: topology_grows_def Exists_Add region_ips_Add_mono)


lemma writes_ok_append [simp]: "writes_ok (xs @ ys) = writes_ok xs @ writes_ok ys"
  by (simp add: writes_ok_def)

lemma writes_ok_Nil [simp]: "writes_ok [] = []"
  by (simp add: writes_ok_def)

lemma no_write_calls_ok: "calls_ok env no_write"
  unfolding calls_ok_def
proof (intro conjI allI impI)
  fix w w1 r w2 assume "no_write w None w1" "no_write w1 r w2"
  then show "no_write w r w2" unfolding no_write_def by auto
qed (auto simp: no_write_def emit_def DownloadSudo_call_def writes_ok_def split: option.splits)

lemma no_write_install_ok: "install_ok no_write"
  by (auto simp: install_ok_def no_write_def emit_def writes_ok_def)

lemma enableAgent_stored:
  assumes "enableAgent env c region node w = (None, c', w')"
  shows "c' = c\<lparr>deployConfig := (deployConfig c)\<lparr>AgentRegions := Add region node (AgentRegions (deployConfig c))\<rparr>\<rparr>"
    and "disk w' = deployConfig c'"
    and "\<exists>es. trace w' = trace w @ es \<and> writes_ok es = [deployConfig c']"
  using assms
  by (auto simp: enableAgent_def SSHCmdWithSudo_call_def Write_def emit_def writes_ok_def Let_def
      split: sum.splits option.splits)

lemma enableAgent_failed:
  assumes "enableAgent env c region node w = (Some f, c', w')"
  shows "no_write w (Some f) w'"
    and "c' = c \<or> c' = c\<lparr>deployConfig := (deployConfig c)\<lparr>AgentRegions := Add region node (AgentRegions (deployConfig c))\<rparr>\<rparr>"
  using assms
  by (auto simp: enableAgent_def SSHCmdWithSudo_call_def Write_def emit_def writes_ok_def Let_def
      no_write_def split: sum.splits option.splits)

lemma join_nodes_writes:
  "join_nodes env c nodes w = (r, c', w') \<Longrightarrow>
     \<exists>es. trace w' = trace w @ es \<and> topology_grows (deployConfig c) (deployConfig c')
        \<and> sorted_wrt topology_grows (writes_ok es)
        \<and> (\<forall>d\<in>set (writes_ok es). topology_grows (deployConfig c) d \<and> topology_grows d (deployConfig c'))
        \<and> disk w' = last (disk w # writes_ok es)"
proof (induction nodes arbitrary: c w)
  case Nil
  then show ?case by (intro exI [of _ "[]"]) (simp add: topology_grows_refl)
next
  case (Cons n nodes)
  obtain region agent where n: "n = (region, agent)" by (cases n)
  obtain r1 w1 where a: "agentNodeFiles env c region agent w = (r1, w1)"
    by (cases "agentNodeFiles env c region agent w")
  from agentNodeFiles_summary [OF no_write_calls_ok no_write_install_ok a]
  obtain es1 where d1: "disk w1 = disk w" and t1: "trace w1 = trace w @ es1"
    and n1: "writes_ok es1 = []" unfolding no_write_def by blast
  show ?case
  proof (cases r1)
    case (Some f)
    with a n Cons.prems have "w' = w1" "c' = c" by auto
    with d1 t1 n1 show ?thesis by (intro exI [of _ es1]) (simp add: topology_grows_refl)
  next
    case None
    note r1 = None
    obtain r2 c2 w2 where e: "enableAgent env c region agent w1 = (r2, c2, w2)"
      by (cases "enableAgent env c region agent w1")
    let ?dc = "(deployConfig c)\<lparr>AgentRegions := Add region agent (AgentRegions (deployConfig c))\<rparr>"
    show ?thesis
    proof (cases r2)
      case (Some f)
      with a r1 e n Cons.prems have w': "w' = w2" "c' = c2" by auto
      from enableAgent_failed [OF e [unfolded Some]]
      obtain es2 where "disk w2 = disk w1" "trace w2 = trace w1 @ es2" "writes_ok es2 = []"
        and c2: "c2 = c \<or> c2 = c\<lparr>deployConfig := ?dc\<rparr>"
        unfolding no_write_def by blast
      moreover from c2 have "topology_grows (deployConfig c) (deployConfig c2)"
        by (auto simp: topology_grows_refl topology_grows_Add)
      ultimately show ?thesis using w' d1 t1 n1
        by (intro exI [of _ "es1 @ es2"]) simp
    next
      case None
      note st = enableAgent_stored [OF e [unfolded None]]
      from st(3) obtain es2 where t2: "trace w2 = trace w1 @ es2"
        and n2: "writes_ok es2 = [deployConfig c2]" by blast
      have g: "topology_grows (deployConfig c) (deployConfig c2)"
        using st(1) by (simp add: topology_grows_Add)
      from a r1 e None n Cons.prems have "join_nodes env c2 nodes w2 = (r, c', w')" by simp
      from Cons.IH [OF this] obtain es3 where
        t3: "trace w' = trace w2 @ es3"
        and g3: "topology_grows (deployConfig c2) (deployConfig c')"
        and s3: "sorted_wrt topology_grows (writes_ok es3)"
        and a3: "\<forall>d\<in>set (writes_ok es3). topology_grows (deployConfig c2) d \<and> topology_grows d (deployConfig c')"
        and d3: "disk w' = last (disk w2 # writes_ok es3)" by blast
      have "trace w' = trace w @ (es1 @ es2 @ es3)" using t1 t2 t3 by simp
      moreover have "topology_grows (deployConfig c) (deployConfig c')"
        using g g3 by (rule topology_grows_trans)
      moreover have "sorted_wrt topology_grows (writes_ok (es1 @ es2 @ es3))"
        using n1 n2 s3 a3 by simp
      moreover have "\<forall>d\<in>set (writes_ok (es1 @ es2 @ es3)).
          topology_grows (deployConfig c) d \<and> topology_grows d (deployConfig c')"
        using n1 n2 a3 g g3 by (auto intro: topology_grows_trans)
      moreover have "disk w' = last (disk w # writes_ok (es1 @ es2 @ es3))"
        using n1 n2 d3 st(2) by simp
      ultimately show ?thesis by blast
    qed
  qed
qed

text \<open>
  C8. In one join invocation the topologies stored by successive writes form a chain that
  starts at the topology stored before the run: each of them has the fields of every earlier
  one except \<open>AgentRegions\<close> (so the server addresses too), and every address an earlier
  one lists, in the same region. The topology on disk at the end is the last one written,
  or the initial one when nothing was written.
\<close>

theorem topology_only_grows:
  "\<exists>es. trace (snd (Run env c w)) = trace w @ es
       \<and> sorted_wrt topology_grows (disk w # writes_ok es)
       \<and> disk (snd (Run env c w)) = last (disk w # writes_ok es)"
proof (cases "Complete env c w")
  case (Inl f)
  then show ?thesis by (intro exI [of _ "[]"]) (simp add: Run_def)
next
  case (Inr c1)
  note c1 = Inr
  then have dc1: "deployConfig c1 = disk w"
    by (auto simp: Complete_def split: option.splits sum.splits)
  show ?thesis
  proof (cases "ValidateArgs c1")
    case (Some err)
    with c1 show ?thesis by (intro exI [of _ "[]"]) (simp add: Run_def)
  next
    case None
    note v = None
    obtain b w1 where p: "preCheck env c1 w = (b, w1)" by (cases "preCheck env c1 w")
    from preCheck_summary [OF no_write_calls_ok p, of None]
    obtain es1 where d1: "disk w1 = disk w" and t1: "trace w1 = trace w @ es1"
      and n1: "writes_ok es1 = []" unfolding no_write_def by blast
    show ?thesis
    proof (cases b)
      case False
      with c1 v p have "snd (Run env c w) = w1" by (simp add: Run_def)
      with d1 t1 n1 show ?thesis by (intro exI [of _ es1]) simp
    next
      case True
      obtain r2 c2 w2 where j: "runJoinAgentNode env c1 w1 = (r2, c2, w2)"
        by (cases "runJoinAgentNode env c1 w1")
      then have "join_nodes env c1 (nodes_of (map_range env (trace w1) (agentRegion c1))) w1 = (r2, c2, w2)"
        by (simp add: runJoinAgentNode_def regions_as_nodes)
      from join_nodes_writes [OF this] obtain es2 where
        t2: "trace w2 = trace w1 @ es2"
        and s2: "sorted_wrt topology_grows (writes_ok es2)"
        and a2: "\<forall>d\<in>set (writes_ok es2). topology_grows (deployConfig c1) d"
        and d2: "disk w2 = last (disk w1 # writes_ok es2)" by blast
      from c1 v p True j have "snd (Run env c w) = w2"
        by (simp add: Run_def RunJoinFunc_def RunJoinNode_def runJoinServerNode_same
            split: option.splits)
      moreover have "trace w2 = trace w @ (es1 @ es2)" using t1 t2 by simp
      moreover have "sorted_wrt topology_grows (disk w # writes_ok (es1 @ es2))"
        using n1 s2 a2 dc1 by simp
      moreover have "disk w2 = last (disk w # writes_ok (es1 @ es2))"
        using n1 d2 d1 by simp
      ultimately show ?thesis by (intro exI [of _ "es1 @ es2"]) simp
    qed
  qed
qed


theorem topology_only_grows_witness:
  "writes_ok (trace (snd (Run example_env example_options example_world)))
     = [example_topology\<lparr>AgentRegions := [(''default'', [''10.0.0.9'', ''10.0.0.1''])]\<rparr>]
   \<and> sorted_wrt topology_grows
        (example_topology # writes_ok (trace (snd (Run example_env example_options example_world))))"
proof -
  have t0: "trace example_world = []" and d0: "disk example_world = example_topology"
    by (simp_all add: example_world_def)
  from topology_only_grows [of example_env example_options example_world]
  have "sorted_wrt topology_grows
        (example_topology # writes_ok (trace (snd (Run example_env example_options example_world))))"
    unfolding t0 d0 by auto
  moreover have "writes_ok (trace (snd (Run example_env example_options example_world)))
     = [example_topology\<lparr>AgentRegions := [(''default'', [''10.0.0.9'', ''10.0.0.1''])]\<rparr>]"
    by (simp add: Run_def Complete_def ValidateArgs_def preCheck_def preCheckKcAgent_def
        sudo_PreCheck_def ListIP_def Exists_def RunJoinFunc_def RunJoinNode_def
        runJoinServerNode_same run_defs writes_ok_def
        example_env_def example_options_def example_topology_def example_world_def)
  ultimately show ?thesis by simp
qed

subsection \<open>Nodes joined before a failure stay recorded\<close>

lemma join_nodes_success:
  "join_nodes env c nodes w = (None, c', w') \<Longrightarrow> disk w = deployConfig c \<Longrightarrow>
     disk w' = deployConfig c'
     \<and> (\<forall>n\<in>set nodes. snd n \<in> set (region_ips (AgentRegions (deployConfig c')) (fst n)))
     \<and> (\<forall>x. Exists (AgentRegions (deployConfig c')) x
            \<longleftrightarrow> x \<in> snd ` set nodes \<or> Exists (AgentRegions (deployConfig c)) x)"
proof (induction nodes arbitrary: c w)
  case Nil
  then show ?case by simp
next
  case (Cons n nodes)
  obtain region agent where n: "n = (region, agent)" by (cases n)
  obtain r1 w1 where a: "agentNodeFiles env c region agent w = (r1, w1)"
    by (cases "agentNodeFiles env c region agent w")
  with n Cons.prems(1) have r1: "r1 = None" by (auto split: option.splits)
  obtain r2 c2 w2 where e: "enableAgent env c region agent w1 = (r2, c2, w2)"
    by (cases "enableAgent env c region agent w1")
  with a r1 n Cons.prems(1) have r2: "r2 = None" by (auto split: option.splits)
  note st = enableAgent_stored [OF e [unfolded r2]]
  from a r1 e r2 n Cons.prems(1) have rest: "join_nodes env c2 nodes w2 = (None, c', w')" by simp
  from Cons.IH [OF rest st(2)] have
    d: "disk w' = deployConfig c'"
    and m: "\<forall>n\<in>set nodes. snd n \<in> set (region_ips (AgentRegions (deployConfig c')) (fst n))"
    and x: "\<forall>x. Exists (AgentRegions (deployConfig c')) x
            \<longleftrightarrow> x \<in> snd ` set nodes \<or> Exists (AgentRegions (deployConfig c2)) x"
    by blast+
  from join_nodes_writes [OF rest] have "topology_grows (deployConfig c2) (deployConfig c')"
    by blast
  then have "set (region_ips (AgentRegions (deployConfig c2)) region)
          \<subseteq> set (region_ips (AgentRegions (deployConfig c')) region)"
    unfolding topology_grows_def by blast
  moreover have "agent \<in> set (region_ips (AgentRegions (deployConfig c2)) region)"
    using st(1) by (simp add: region_ips_Add_same)
  ultimately have h: "agent \<in> set (region_ips (AgentRegions (deployConfig c')) region)" by blast
  have x2: "Exists (AgentRegions (deployConfig c2)) y \<longleftrightarrow> y = agent \<or> Exists (AgentRegions (deployConfig c)) y" for y
    using st(1) by (simp add: Exists_Add)
  show ?case using d m x h x2 n by auto
qed

lemma join_nodes_failure:
  "join_nodes env c nodes w = (Some f, c', w') \<Longrightarrow>
     \<exists>done rB B rest c1 w1. nodes = done @ (rB, B) # rest
        \<and> join_nodes env c done w = (None, c1, w1)
        \<and> join_nodes env c1 [(rB, B)] w1 = (Some f, c', w')
        \<and> disk w' = disk w1"
proof (induction nodes arbitrary: c w)
  case Nil
  then show ?case by simp
next
  case (Cons n nodes)
  obtain region agent where n: "n = (region, agent)" by (cases n)
  obtain r1 w1 where a: "agentNodeFiles env c region agent w = (r1, w1)"
    by (cases "agentNodeFiles env c region agent w")
  from agentNodeFiles_summary [OF no_write_calls_ok no_write_install_ok a]
  have d1: "disk w1 = disk w" unfolding no_write_def by blast
  show ?case
  proof (cases r1)
    case (Some g)
    with a n Cons.prems have "join_nodes env c [(region, agent)] w = (Some f, c', w')" "w' = w1"
      by auto
    with d1 n show ?thesis
      by (intro exI [of _ "[]"] exI [of _ region] exI [of _ agent] exI [of _ nodes]
          exI [of _ c] exI [of _ w]) simp
  next
    case None
    note r1 = None
    obtain r2 c2 w2 where e: "enableAgent env c region agent w1 = (r2, c2, w2)"
      by (cases "enableAgent env c region agent w1")
    show ?thesis
    proof (cases r2)
      case (Some g)
      with a r1 e n Cons.prems have "join_nodes env c [(region, agent)] w = (Some f, c', w')"
        "w' = w2" "g = f" by auto
      moreover from enableAgent_failed(1) [OF e [unfolded Some]] have "disk w2 = disk w1"
        unfolding no_write_def by blast
      ultimately show ?thesis using d1 n
        by (intro exI [of _ "[]"] exI [of _ region] exI [of _ agent] exI [of _ nodes]
            exI [of _ c] exI [of _ w]) simp
    next
      case None
      with a r1 e n Cons.prems have rest: "join_nodes env c2 nodes w2 = (Some f, c', w')" by simp
      from Cons.IH [OF rest] obtain dn rB B rs c1 w1' where
        s: "nodes = dn @ (rB, B) # rs" and ok: "join_nodes env c2 dn w2 = (None, c1, w1')"
        and bad: "join_nodes env c1 [(rB, B)] w1' = (Some f, c', w')" and d: "disk w' = disk w1'"
        by blast
      from a r1 e None ok have "join_nodes env c ((region, agent) # dn) w = (None, c1, w1')" by simp
      with s bad d n show ?thesis
        by (intro exI [of _ "(region, agent) # dn"] exI [of _ rB] exI [of _ B] exI [of _ rs]
            exI [of _ c1] exI [of _ w1']) simp
    qed
  qed
qed

lemma join_failure_durable:
  assumes run: "join_nodes env c nodes w = (Some f, c', w')"
    and loaded: "disk w = deployConfig c"
    and fresh: "\<forall>ip\<in>snd ` set nodes. \<not> Exists (AgentRegions (deployConfig c)) ip"
    and dist: "distinct (map snd nodes)"
  shows "\<exists>done rB B rest c1 w1. nodes = done @ (rB, B) # rest
        \<and> join_nodes env c done w = (None, c1, w1)
        \<and> (\<forall>n\<in>set done. snd n \<in> set (region_ips (AgentRegions (disk w1)) (fst n)))
        \<and> join_nodes env c1 [(rB, B)] w1 = (Some f, c', w')
        \<and> (\<forall>n\<in>set done. snd n \<in> set (region_ips (AgentRegions (disk w')) (fst n)))
        \<and> \<not> Exists (AgentRegions (disk w')) B
        \<and> (\<forall>n\<in>set rest. \<not> Exists (AgentRegions (disk w')) (snd n))"
proof -
  from join_nodes_failure [OF run] obtain dn rB B rs c1 w1 where
    s: "nodes = dn @ (rB, B) # rs" and ok: "join_nodes env c dn w = (None, c1, w1)"
    and bad: "join_nodes env c1 [(rB, B)] w1 = (Some f, c', w')" and d: "disk w' = disk w1"
    by blast
  from join_nodes_success [OF ok loaded] have
    d1: "disk w1 = deployConfig c1"
    and m: "\<forall>n\<in>set dn. snd n \<in> set (region_ips (AgentRegions (deployConfig c1)) (fst n))"
    and x: "\<forall>x. Exists (AgentRegions (deployConfig c1)) x
            \<longleftrightarrow> x \<in> snd ` set dn \<or> Exists (AgentRegions (deployConfig c)) x"
    by blast+
  have nB: "B \<notin> snd ` set dn" using dist s by auto
  have nR: "\<forall>n\<in>set rs. snd n \<notin> snd ` set dn" using dist s by auto
  have fB: "\<not> Exists (AgentRegions (deployConfig c)) B" using fresh s by force
  have fR: "\<forall>n\<in>set rs. \<not> Exists (AgentRegions (deployConfig c)) (snd n)" using fresh s by force
  show ?thesis
    using s ok bad d d1 m x nB nR fB fR
    by (intro exI [of _ dn] exI [of _ rB] exI [of _ B] exI [of _ rs] exI [of _ c1] exI [of _ w1])
       auto
qed


lemma preCheck_agents_passed:
  "preCheck_agents env c ips w = (True, w') \<Longrightarrow>
     \<forall>ip\<in>set ips. \<not> Exists (AgentRegions (deployConfig c)) ip"
proof (induction ips arbitrary: w)
  case Nil
  then show ?case by simp
next
  case (Cons ip ips)
  obtain b w1 where k: "preCheckKcAgent env c ip w = (b, w1)"
    by (cases "preCheckKcAgent env c ip w")
  with Cons.prems have b: "b" and rest: "preCheck_agents env c ips w1 = (True, w')"
    by (auto split: bool.splits)
  from preCheckKcAgent_world [OF k] b have "\<not> Exists (AgentRegions (deployConfig c)) ip"
    by (auto split: if_splits)
  with Cons.IH [OF rest] show ?case by simp
qed

lemma preCheck_passed:
  assumes "preCheck env c w = (True, w')"
  shows "\<forall>ip\<in>set (ListIP (agentRegion c)). \<not> Exists (AgentRegions (deployConfig c)) ip"
proof -
  obtain b w1 where s: "sudo_PreCheck env (ListIP (agentRegion c) @ servers c) w = (b, w1)"
    by (cases "sudo_PreCheck env (ListIP (agentRegion c) @ servers c) w")
  with assms have "preCheck_agents env c (ListIP (agentRegion c)) w1 = (True, w')"
    by (auto simp: preCheck_def split: bool.splits)
  then show ?thesis by (rule preCheck_agents_passed)
qed

lemma snd_nodes_of: "snd ` set (nodes_of its) = set (concat (map snd its))"
  by (force simp: nodes_of_def)

text \<open>
  C1. Take a join run that has loaded the topology, passed validation and preflight, and
  whose agent loop then fails; the candidate addresses are pairwise distinct, as the address
  expander leaves them. Then the run reports the failure, and the node sequence splits into
  the nodes \<open>done\<close> that were activated, the node \<open>B\<close> that failed, and the rest, such
  that: when processing of \<open>B\<close> begins, the stored topology already lists every node of
  \<open>done\<close> under its region; when the error is reported it still does, and it lists neither
  \<open>B\<close> nor any later node. More generally, whenever the loop body has succeeded on a
  sequence of nodes, the topology stored at that moment, before the next node is touched,
  lists all of them.
\<close>

theorem joined_nodes_survive_later_failure:
  assumes "Complete env c0 w0 = Inr c" and "ValidateArgs c = None"
    and "preCheck env c w0 = (True, w)"
    and "runJoinAgentNode env c w = (Some f, c', w')"
    and "set (map_range env (trace w) (agentRegion c)) \<subseteq> set (agentRegion c)"
    and "distinct (map snd (nodes_of (map_range env (trace w) (agentRegion c))))"
  shows "Run env c0 w0 = (Failed (CheckErr (wrap_failure ''join agent node failed: '' f)), w')
     \<and> (\<exists>done rB B rest c1 w1.
          nodes_of (map_range env (trace w) (agentRegion c)) = done @ (rB, B) # rest
        \<and> join_nodes env c done w = (None, c1, w1)
        \<and> (\<forall>n\<in>set done. snd n \<in> set (region_ips (AgentRegions (disk w1)) (fst n)))
        \<and> join_nodes env c1 [(rB, B)] w1 = (Some f, c', w')
        \<and> (\<forall>n\<in>set done. snd n \<in> set (region_ips (AgentRegions (disk w')) (fst n)))
        \<and> \<not> Exists (AgentRegions (disk w')) B
        \<and> (\<forall>n\<in>set rest. \<not> Exists (AgentRegions (disk w')) (snd n)))
     \<and> (\<forall>pre c2 w2. join_nodes env c pre w = (None, c2, w2) \<longrightarrow>
          (\<forall>n\<in>set pre. snd n \<in> set (region_ips (AgentRegions (disk w2)) (fst n))))"
proof -
  let ?nodes = "nodes_of (map_range env (trace w) (agentRegion c))"
  have run: "Run env c0 w0 = (Failed (CheckErr (wrap_failure ''join agent node failed: '' f)), w')"
    using assms(1-4)
    by (simp add: Run_def RunJoinFunc_def RunJoinNode_def runJoinServerNode_same)
  from assms(1) have "deployConfig c = disk w0"
    by (auto simp: Complete_def split: option.splits sum.splits)
  moreover from preCheck_summary [OF no_write_calls_ok assms(3), of None]
  have "disk w = disk w0" unfolding no_write_def by blast
  ultimately have loaded: "disk w = deployConfig c" by simp
  have "snd ` set ?nodes \<subseteq> set (ListIP (agentRegion c))"
    unfolding snd_nodes_of ListIP_def using assms(5) by auto
  with preCheck_passed [OF assms(3)]
  have fresh: "\<forall>ip\<in>snd ` set ?nodes. \<not> Exists (AgentRegions (deployConfig c)) ip" by blast
  from assms(4) have j: "join_nodes env c ?nodes w = (Some f, c', w')"
    by (simp add: runJoinAgentNode_def regions_as_nodes)
  note d = join_failure_durable [OF j loaded fresh assms(6)]
  have g: "\<forall>pre c2 w2. join_nodes env c pre w = (None, c2, w2) \<longrightarrow>
          (\<forall>n\<in>set pre. snd n \<in> set (region_ips (AgentRegions (disk w2)) (fst n)))"
    using join_nodes_success [OF _ loaded] by metis
  from run d g show ?thesis by blast
qed

theorem joined_nodes_survive_later_failure_witness:
  "fst (Run example_env example_options example_world)
     = Failed (Exited ''join agent node failed: enable kc agent: ssh: connection refused'')
   \<and> (\<exists>done rB B rest.
        [(''default'', ''10.0.0.1''), (''default'', ''10.0.0.2'')] = done @ (rB, B) # rest
      \<and> (\<forall>n\<in>set done. snd n \<in> set (region_ips
            (AgentRegions (disk (snd (Run example_env example_options example_world)))) (fst n)))
      \<and> \<not> Exists (AgentRegions (disk (snd (Run example_env example_options example_world)))) B)"
proof -
  have a: "Complete example_env example_options example_world = Inr example_options"
    by (simp add: Complete_def example_env_def example_options_def example_world_def
        example_topology_def)
  have b: "ValidateArgs example_options = None"
    by (simp add: ValidateArgs_def example_options_def example_topology_def)
  have p: "preCheck example_env example_options example_world = (True, checked_world)"
    by (simp add: preCheck_def preCheckKcAgent_def sudo_PreCheck_def SSHCmdWithSudo_call_def
        emit_def ListIP_def Exists_def checked_world_def
        example_env_def example_options_def example_world_def example_topology_def)
  obtain r c' w' where j: "runJoinAgentNode example_env example_options checked_world = (r, c', w')"
    by (cases "runJoinAgentNode example_env example_options checked_world")
  have "fst (runJoinAgentNode example_env example_options checked_world)
          = Some (Returned ''enable kc agent: ssh: connection refused'')"
    by (simp add: run_defs checked_world_def
        example_env_def example_options_def example_topology_def example_world_def)
  with j have j': "runJoinAgentNode example_env example_options checked_world
          = (Some (Returned ''enable kc agent: ssh: connection refused''), c', w')" by simp
  have m: "set (map_range example_env (trace checked_world) (agentRegion example_options))
             \<subseteq> set (agentRegion example_options)"
    by (simp add: example_env_def)
  have n: "nodes_of (map_range example_env (trace checked_world) (agentRegion example_options))
             = [(''default'', ''10.0.0.1''), (''default'', ''10.0.0.2'')]"
    by (simp add: nodes_of_def example_env_def example_options_def)
  have d: "distinct (map snd (nodes_of (map_range example_env (trace checked_world)
             (agentRegion example_options))))"
    unfolding n by simp
  note t = joined_nodes_survive_later_failure [OF a b p j' m d, unfolded n]
  from t have r: "Run example_env example_options example_world
      = (Failed (Exited ''join agent node failed: enable kc agent: ssh: connection refused''), w')"
    by simp
  from t obtain dn rB B rs where
    "[(''default'', ''10.0.0.1''), (''default'', ''10.0.0.2'')] = dn @ (rB, B) # rs"
    "\<forall>n\<in>set dn. snd n \<in> set (region_ips (AgentRegions (disk w')) (fst n))"
    "\<not> Exists (AgentRegions (disk w')) B" by blast
  with r show ?thesis by (simp only: fst_conv snd_conv) blast
qed

end
